theory Spec2Isabelle
  imports Main "HOL-Library.Word"
begin

section \<open>JavaScript values used by the SDK\<close>

text \<open>
  Strings are lists of characters. The numbers the SDK handles (HTTP statuses, header
  values, epoch seconds, page numbers, counters) are integers; they are modelled as
  mathematical integers, which is exact for JavaScript numbers below \<open>2^53\<close>. The one
  non-integer value that the code can produce from them, \<open>NaN\<close> (the result of
  \<open>parseInt\<close> on a string without a leading integer), is kept as a value of its own.
\<close>

datatype js_number = NaN | Num int

definition isNaN :: "js_number \<Rightarrow> bool" where
  "isNaN x = (case x of NaN \<Rightarrow> True | Num n \<Rightarrow> False)"

text \<open>
  \<open>parseInt(s, 10)\<close>: leading white space is skipped, one optional sign is read, then the
  longest run of decimal digits; without a digit the result is \<open>NaN\<close>. Whatever follows
  the digits is ignored. The white space recognised here is the ASCII part of the
  language's white space (tab, line feed, vertical tab, form feed, carriage return,
  space).
\<close>

definition isWhiteSpace :: "char \<Rightarrow> bool" where
  "isWhiteSpace c = (of_char c \<in> {9, 10, 11, 12, 13, 32 :: nat})"

definition isDigit :: "char \<Rightarrow> bool" where
  "isDigit c = (48 \<le> (of_char c :: nat) \<and> (of_char c :: nat) \<le> 57)"

definition digitValue :: "char \<Rightarrow> nat" where
  "digitValue c = of_char c - 48"

definition digitsValue :: "string \<Rightarrow> nat" where
  "digitsValue z = foldl (\<lambda>acc c. 10 * acc + digitValue c) 0 z"

definition parseInt :: "string \<Rightarrow> js_number" where
  "parseInt s =
     (let t = dropWhile isWhiteSpace s;
          negative = (case t of [] \<Rightarrow> False | c # cs \<Rightarrow> c = CHR ''-'');
          u = (case t of [] \<Rightarrow> []
               | c # cs \<Rightarrow> if c = CHR ''+'' \<or> c = CHR ''-'' then cs else t);
          z = takeWhile isDigit u
      in if z = [] then NaN
         else Num ((if negative then - 1 else 1) * int (digitsValue z)))"

text \<open>\<open>String(n)\<close> and template interpolation of an integer: its decimal numeral.\<close>

definition digitChar :: "nat \<Rightarrow> char" where
  "digitChar d = char_of (48 + d)"

fun natToString :: "nat \<Rightarrow> string" where
  "natToString n =
     (if n < 10 then [digitChar n] else natToString (n div 10) @ [digitChar (n mod 10)])"

definition intToString :: "int \<Rightarrow> string" where
  "intToString n = (if n < 0 then CHR ''-'' # natToString (nat (- n)) else natToString (nat n))"

text \<open>\<open>s.includes(sub)\<close>: \<open>sub\<close> occurs in \<open>s\<close> as a contiguous run.\<close>

fun includes_str :: "string \<Rightarrow> string \<Rightarrow> bool" where
  "includes_str [] sub = (sub = [])"
| "includes_str (c # cs) sub = (take (length sub) (c # cs) = sub \<or> includes_str cs sub)"

text \<open>
  \<open>s.split(sep)\<close> for a one-character separator: the string is cut at every occurrence
  of the separator, so a string with \<open>k\<close> separators gives \<open>k + 1\<close> parts.
\<close>

fun split_from :: "char \<Rightarrow> string \<Rightarrow> string \<Rightarrow> string list" where
  "split_from sep cur [] = [rev cur]"
| "split_from sep cur (c # cs) =
     (if c = sep then rev cur # split_from sep [] cs else split_from sep (c # cur) cs)"

definition split :: "string \<Rightarrow> char \<Rightarrow> string list" where
  "split s sep = split_from sep [] s"

text \<open>
  The \<open>Headers\<close> object of a response is modelled by its \<open>get\<close> method: the value stored
  under a header name, or nothing (\<open>null\<close>) when the header is absent.
\<close>

type_synonym Headers = "string \<Rightarrow> string option"

text \<open>A thrown JavaScript value that is not one of the SDK's own errors.\<close>

record js_error =
  is_Error :: bool
  is_TypeError :: bool
  err_name :: string
  err_message :: string

section \<open>Error taxonomy (errors.ts)\<close>

record ErrorDetail =
  field :: "string option"
  detail_message :: string

text \<open>The body handed to the factory, as its parameter type declares it.\<close>

record ErrorInfo =
  error_code :: "string option"
  error_message :: "string option"
  error_details :: "ErrorDetail list option"

record ErrorBody =
  error :: "ErrorInfo option"

text \<open>
  The class of an error object (its prototype, which decides every \<open>instanceof\<close> test).
  \<open>HisabError_class\<close> is the base class itself.
\<close>

datatype error_class =
    HisabError_class
  | ValidationError_class
  | AuthenticationError_class
  | ForbiddenError_class
  | NotFoundError_class
  | RateLimitError_class
  | NetworkError_class
  | TimeoutError_class

record HisabError =
  proto :: error_class
  name :: string
  message :: string
  code :: string
  status :: int
  details :: "ErrorDetail list option"
  response :: "ErrorBody option"
  retryAfter :: "js_number option"
  cause :: "js_error option"

text \<open>
  The constructors. A parameter with a default value in the source is an option here:
  \<open>None\<close> is the argument left out (\<open>undefined\<close>), which is when the default applies.
\<close>

definition new_HisabError ::
  "string \<Rightarrow> string \<Rightarrow> int \<Rightarrow> ErrorDetail list option \<Rightarrow> ErrorBody option \<Rightarrow> HisabError" where
  "new_HisabError msg c st ds resp =
     \<lparr>proto = HisabError_class, name = ''HisabError'', message = msg, code = c, status = st,
      details = ds, response = resp, retryAfter = None, cause = None\<rparr>"

definition new_ValidationError ::
  "string \<Rightarrow> string option \<Rightarrow> ErrorDetail list option \<Rightarrow> ErrorBody option \<Rightarrow> HisabError" where
  "new_ValidationError msg c ds resp =
     (new_HisabError msg (case c of None \<Rightarrow> ''VALIDATION_ERROR'' | Some c' \<Rightarrow> c') 400 ds resp)
       \<lparr>proto := ValidationError_class, name := ''ValidationError''\<rparr>"

definition new_AuthenticationError ::
  "string option \<Rightarrow> string option \<Rightarrow> ErrorBody option \<Rightarrow> HisabError" where
  "new_AuthenticationError msg c resp =
     (new_HisabError (case msg of None \<Rightarrow> ''Invalid or missing API key'' | Some m \<Rightarrow> m)
        (case c of None \<Rightarrow> ''UNAUTHORIZED'' | Some c' \<Rightarrow> c') 401 None resp)
       \<lparr>proto := AuthenticationError_class, name := ''AuthenticationError''\<rparr>"

definition new_ForbiddenError ::
  "string option \<Rightarrow> string option \<Rightarrow> ErrorBody option \<Rightarrow> HisabError" where
  "new_ForbiddenError msg c resp =
     (new_HisabError (case msg of None \<Rightarrow> ''Insufficient permissions'' | Some m \<Rightarrow> m)
        (case c of None \<Rightarrow> ''FORBIDDEN'' | Some c' \<Rightarrow> c') 403 None resp)
       \<lparr>proto := ForbiddenError_class, name := ''ForbiddenError''\<rparr>"

definition new_NotFoundError ::
  "string option \<Rightarrow> string option \<Rightarrow> ErrorBody option \<Rightarrow> HisabError" where
  "new_NotFoundError msg c resp =
     (new_HisabError (case msg of None \<Rightarrow> ''Resource not found'' | Some m \<Rightarrow> m)
        (case c of None \<Rightarrow> ''NOT_FOUND'' | Some c' \<Rightarrow> c') 404 None resp)
       \<lparr>proto := NotFoundError_class, name := ''NotFoundError''\<rparr>"

definition new_RateLimitError ::
  "string option \<Rightarrow> string option \<Rightarrow> ErrorBody option \<Rightarrow> js_number option \<Rightarrow> HisabError" where
  "new_RateLimitError msg c resp ra =
     (new_HisabError (case msg of None \<Rightarrow> ''Rate limit exceeded'' | Some m \<Rightarrow> m)
        (case c of None \<Rightarrow> ''RATE_LIMIT_EXCEEDED'' | Some c' \<Rightarrow> c') 429 None resp)
       \<lparr>proto := RateLimitError_class, name := ''RateLimitError'',
        retryAfter := Some (case ra of None \<Rightarrow> Num 60 | Some r \<Rightarrow> r)\<rparr>"

definition new_NetworkError :: "string option \<Rightarrow> js_error option \<Rightarrow> HisabError" where
  "new_NetworkError msg originalCause =
     (new_HisabError (case msg of None \<Rightarrow> ''Network request failed'' | Some m \<Rightarrow> m)
        ''NETWORK_ERROR'' 0 None None)
       \<lparr>proto := NetworkError_class, name := ''NetworkError'', cause := originalCause\<rparr>"

text \<open>
  \<open>timeout ? `Request timed out after ${timeout}ms` : message\<close>: the budget is named in
  the message when it is given and not zero.
\<close>

definition new_TimeoutError :: "string option \<Rightarrow> int option \<Rightarrow> HisabError" where
  "new_TimeoutError msg timeout =
     (new_HisabError
        (case timeout of
           None \<Rightarrow> (case msg of None \<Rightarrow> ''Request timed out'' | Some m \<Rightarrow> m)
         | Some t \<Rightarrow>
             if t \<noteq> 0 then ''Request timed out after '' @ intToString t @ ''ms''
             else (case msg of None \<Rightarrow> ''Request timed out'' | Some m \<Rightarrow> m))
        ''TIMEOUT'' 0 None None)
       \<lparr>proto := TimeoutError_class, name := ''TimeoutError''\<rparr>"

text \<open>
  \<open>HisabError.fromResponse(status, body, headers)\<close>. The three \<open>??\<close> defaults are taken
  before the switch, so every constructor below receives a message and a code.
\<close>

definition fromResponse :: "int \<Rightarrow> ErrorBody \<Rightarrow> Headers option \<Rightarrow> HisabError" where
  "fromResponse st body headers =
     (let c = (case error body of None \<Rightarrow> ''UNKNOWN_ERROR''
               | Some e \<Rightarrow> (case error_code e of None \<Rightarrow> ''UNKNOWN_ERROR'' | Some c' \<Rightarrow> c'));
          msg = (case error body of None \<Rightarrow> ''An unknown error occurred''
                 | Some e \<Rightarrow> (case error_message e of
                                None \<Rightarrow> ''An unknown error occurred'' | Some m \<Rightarrow> m));
          ds = (case error body of None \<Rightarrow> None | Some e \<Rightarrow> error_details e)
      in if st = 400 then new_ValidationError msg (Some c) ds (Some body)
         else if st = 401 then new_AuthenticationError (Some msg) (Some c) (Some body)
         else if st = 403 then new_ForbiddenError (Some msg) (Some c) (Some body)
         else if st = 404 then new_NotFoundError (Some msg) (Some c) (Some body)
         else if st = 429 then
           (let ra = (case headers of
                        None \<Rightarrow> Num 60
                      | Some h \<Rightarrow> parseInt (case h ''Retry-After'' of None \<Rightarrow> ''60'' | Some v \<Rightarrow> v))
            in new_RateLimitError (Some msg) (Some c) (Some body) (Some ra))
         else new_HisabError msg c st ds (Some body))"

text \<open>\<open>ValidationError.getFieldErrors\<close> and \<open>hasFieldError\<close>.\<close>

definition getFieldErrors :: "HisabError \<Rightarrow> string \<Rightarrow> string list" where
  "getFieldErrors e f =
     map detail_message
       (filter (\<lambda>d. field d = Some f) (case details e of None \<Rightarrow> [] | Some ds \<Rightarrow> ds))"

definition hasFieldError :: "HisabError \<Rightarrow> string \<Rightarrow> bool" where
  "hasFieldError e f = (length (getFieldErrors e f) > 0)"

section \<open>Transport core (utils/request.ts)\<close>

record RateLimitInfo =
  limit :: js_number
  remaining :: js_number
  reset :: js_number

record HisabClientOptions =
  opt_apiKey :: string
  opt_baseUrl :: "string option"
  opt_timeout :: "int option"
  opt_retries :: "int option"
  opt_debug :: "bool option"

text \<open>
  The client object. \<open>customFetch\<close> is the environment and is passed to \<open>request\<close>
  separately; \<open>lastRateLimit\<close> is the only field that changes after construction.
\<close>

record HttpClient =
  apiKey :: string
  baseUrl :: string
  timeout :: int
  maxRetries :: int
  debug :: bool
  lastRateLimit :: "RateLimitInfo option"

definition new_HttpClient :: "HisabClientOptions \<Rightarrow> string + HttpClient" where
  "new_HttpClient opts =
     (if opt_apiKey opts = [] then Inl ''API key is required''
      else Inr \<lparr>apiKey = opt_apiKey opts,
                baseUrl = (case opt_baseUrl opts of None \<Rightarrow> ''https://hisab.ma/api/v1'' | Some b \<Rightarrow> b),
                timeout = (case opt_timeout opts of None \<Rightarrow> 30000 | Some t \<Rightarrow> t),
                maxRetries = (case opt_retries opts of None \<Rightarrow> 3 | Some r \<Rightarrow> r),
                debug = (case opt_debug opts of None \<Rightarrow> False | Some d \<Rightarrow> d),
                lastRateLimit = None\<rparr>)"

text \<open>
  The part of a request configuration that the retry loop reads. Method, path, query,
  body and extra headers only shape the URL and the request sent; they are built before
  the loop and do not influence it.
\<close>

datatype responseType = Json | Blob | Text

record RequestConfig =
  cfg_timeout :: "int option"
  cfg_retries :: "int option"
  cfg_responseType :: "responseType option"

text \<open>
  What \<open>response.json()\<close> resolves to for the body of an error response. The literal
  \<open>null\<close> is kept apart, because reading \<open>body.error\<close> from it throws; every other
  value is represented by what the factory reads from it (a value without an \<open>error\<close>
  property, such as a number or an array, reads as a body whose \<open>error\<close> is absent).
\<close>

datatype parsed_json = JsonNull | JsonValue ErrorBody

text \<open>
  A response as the loop observes it: status, status text, headers, what \<open>json()\<close> gives
  for the body of an error response (\<open>None\<close> when it throws), and what reading the
  body of a successful response gives for each response type (a thrown value or the
  payload).
\<close>

record 'a Response =
  resp_status :: int
  resp_statusText :: string
  resp_headers :: Headers
  resp_errorJson :: "parsed_json option"
  resp_read :: "responseType \<Rightarrow> js_error + 'a"

text \<open>\<open>response.ok\<close>, which the platform defines as a status from 200 to 299.\<close>

definition ok :: "'a Response \<Rightarrow> bool" where
  "ok r = (200 \<le> resp_status r \<and> resp_status r < 300)"

text \<open>
  One call of \<open>fetchWithTimeout\<close> either resolves with a response or rejects; an abort by
  the timeout timer is a rejection whose \<open>name\<close> is \<open>AbortError\<close>. The environment
  is a function from the number of earlier calls to the outcome of the next one.
\<close>

datatype 'a fetch_outcome = Responded "'a Response" | Rejected js_error

datatype thrown = Typed HisabError | Raw js_error

text \<open>
  A delay the loop waits for: \<open>retryAfter * 1000\<close> milliseconds after a 429, or the
  backoff delay of an attempt, whose deterministic part is \<open>backoffBase\<close> (the random
  jitter below one second that is added to it is not modelled).
\<close>

datatype sleep = RetryAfterSeconds js_number | Backoff int

definition backoffBase :: "int \<Rightarrow> int" where
  "backoffBase attempt = min (1000 * 2 ^ nat (attempt - 1)) 30000"

record req_state =
  client :: HttpClient
  lastError :: "thrown option"
  calls :: nat
  sleeps :: "sleep list"

definition truthy :: "string option \<Rightarrow> bool" where
  "truthy v = (case v of None \<Rightarrow> False | Some s \<Rightarrow> s \<noteq> [])"

definition parseRateLimitHeaders :: "Headers \<Rightarrow> HttpClient \<Rightarrow> HttpClient" where
  "parseRateLimitHeaders headers this =
     (let l = headers ''X-RateLimit-Limit'';
          r = headers ''X-RateLimit-Remaining'';
          rs = headers ''X-RateLimit-Reset''
      in if truthy l \<and> truthy r \<and> truthy rs
         then this\<lparr>lastRateLimit :=
                Some \<lparr>limit = parseInt (case l of None \<Rightarrow> [] | Some s \<Rightarrow> s),
                      remaining = parseInt (case r of None \<Rightarrow> [] | Some s \<Rightarrow> s),
                      reset = parseInt (case rs of None \<Rightarrow> [] | Some s \<Rightarrow> s)\<rparr>\<rparr>
         else this)"

text \<open>
  \<open>safeParseJson\<close> returns whatever \<open>json()\<close> resolves to, \<open>null\<close> included, and the
  substitute body only when \<open>json()\<close> throws.
\<close>

definition safeParseJson :: "'a Response \<Rightarrow> parsed_json" where
  "safeParseJson r =
     (case resp_errorJson r of
        Some v \<Rightarrow> v
      | None \<Rightarrow>
          JsonValue
            \<lparr>error = Some \<lparr>error_code = None,
                            error_message =
                              Some (if resp_statusText r \<noteq> [] then resp_statusText r
                                    else ''Unknown error''),
                            error_details = None\<rparr>\<rparr>)"

text \<open>
  The \<open>TypeError\<close> that \<open>body.error\<close> throws in \<open>HisabError.fromResponse\<close> when
  \<open>request\<close> passes it the body \<open>null\<close>. The wording of the message is the engine's
  (here V8's); no engine's wording contains \<open>fetch\<close>.
\<close>

definition null_body_error :: js_error where
  "null_body_error =
     \<lparr>is_Error = True, is_TypeError = True, err_name = ''TypeError'',
      err_message = ''Cannot read properties of null (reading '' @ [CHR 0x27] @ ''error'' @
                    [CHR 0x27] @ '')''\<rparr>"

text \<open>What one pass through the loop body decides.\<close>

datatype 'a step = Return 'a | Throw thrown | Continue

text \<open>
  The \<open>catch\<close> block for a thrown value that is not a \<open>HisabError\<close>: a rejected fetch,
  a failure while reading the body of a successful response, or the \<open>TypeError\<close> of the
  factory on a \<open>null\<close> body.
\<close>

definition catch_raw :: "int \<Rightarrow> int \<Rightarrow> int \<Rightarrow> js_error \<Rightarrow> req_state \<Rightarrow> 'a step \<times> req_state" where
  "catch_raw maxAttempts requestTimeout attempt e st =
     (let st1 = st\<lparr>lastError := Some (Raw e)\<rparr>
      in if attempt < maxAttempts then (Continue, st1\<lparr>sleeps := sleeps st1 @ [Backoff attempt]\<rparr>)
         else if is_TypeError e \<and> includes_str (err_message e) ''fetch''
         then (Throw (Typed (new_NetworkError (Some ''Network request failed'') (Some e))), st1)
         else if is_Error e \<and> err_name e = ''AbortError''
         then (Throw (Typed (new_TimeoutError (Some ''Request timed out'') (Some requestTimeout))), st1)
         else (Throw (Raw e), st1))"

text \<open>
  The body of the \<open>for\<close> loop of \<open>request\<close> for one attempt. A \<open>HisabError\<close> thrown
  inside \<open>try\<close> is recorded as \<open>lastError\<close> by the \<open>catch\<close> block and thrown again.
  The call of the factory is inside \<open>try\<close> and comes before every test of the status,
  so on a \<open>null\<close> body its \<open>TypeError\<close> goes to the \<open>catch\<close> block whatever the
  status is.
\<close>

definition attempt_body ::
  "(nat \<Rightarrow> 'a fetch_outcome) \<Rightarrow> responseType \<Rightarrow> int \<Rightarrow> int \<Rightarrow> int \<Rightarrow> req_state
     \<Rightarrow> 'a step \<times> req_state" where
  "attempt_body fetch rt maxAttempts requestTimeout attempt st =
     (case fetch (calls st) of
        Rejected e \<Rightarrow>
          catch_raw maxAttempts requestTimeout attempt e (st\<lparr>calls := calls st + 1\<rparr>)
      | Responded r \<Rightarrow>
          (let st1 = st\<lparr>calls := calls st + 1,
                        client := parseRateLimitHeaders (resp_headers r) (client st)\<rparr>
           in if \<not> ok r then
                (case safeParseJson r of
                   JsonNull \<Rightarrow> catch_raw maxAttempts requestTimeout attempt null_body_error st1
                 | JsonValue errorBody \<Rightarrow>
                     (let err = fromResponse (resp_status r) errorBody (Some (resp_headers r))
                      in if resp_status r \<ge> 400 \<and> resp_status r < 500 \<and> resp_status r \<noteq> 429
                         then (Throw (Typed err), st1\<lparr>lastError := Some (Typed err)\<rparr>)
                         else if proto err = RateLimitError_class \<and> attempt < maxAttempts
                         then (Continue,
                               st1\<lparr>sleeps := sleeps st1 @
                                  [RetryAfterSeconds
                                     (case retryAfter err of None \<Rightarrow> NaN | Some x \<Rightarrow> x)]\<rparr>)
                         else (let st2 = st1\<lparr>lastError := Some (Typed err)\<rparr>
                               in if resp_status r \<ge> 500 \<and> attempt < maxAttempts
                                  then (Continue, st2\<lparr>sleeps := sleeps st2 @ [Backoff attempt]\<rparr>)
                                  else (Throw (Typed err), st2))))
              else (case resp_read r rt of
                      Inr v \<Rightarrow> (Return v, st1)
                    | Inl e \<Rightarrow> catch_raw maxAttempts requestTimeout attempt e st1)))"

function request_loop ::
  "(nat \<Rightarrow> 'a fetch_outcome) \<Rightarrow> responseType \<Rightarrow> int \<Rightarrow> int \<Rightarrow> int \<Rightarrow> req_state
     \<Rightarrow> (thrown + 'a) \<times> req_state" where
  "request_loop fetch rt maxAttempts requestTimeout attempt st =
     (if attempt \<le> maxAttempts then
        (case attempt_body fetch rt maxAttempts requestTimeout attempt st of
           (Return v, st') \<Rightarrow> (Inr v, st')
         | (Throw e, st') \<Rightarrow> (Inl e, st')
         | (Continue, st') \<Rightarrow> request_loop fetch rt maxAttempts requestTimeout (attempt + 1) st')
      else (Inl (case lastError st of
                   Some e \<Rightarrow> e
                 | None \<Rightarrow> Typed (new_NetworkError (Some ''Request failed after all retries'') None)),
            st))"
  by pat_completeness auto
termination
  by (relation "measure (\<lambda>(fetch, rt, maxAttempts, requestTimeout, attempt, st).
        nat (maxAttempts + 1 - attempt))") auto

definition request ::
  "(nat \<Rightarrow> 'a fetch_outcome) \<Rightarrow> HttpClient \<Rightarrow> RequestConfig \<Rightarrow> (thrown + 'a) \<times> req_state" where
  "request fetch this config =
     (let rt = (case cfg_responseType config of None \<Rightarrow> Json | Some t \<Rightarrow> t);
          maxAttempts = (case cfg_retries config of None \<Rightarrow> maxRetries this | Some r \<Rightarrow> r) + 1;
          requestTimeout = (case cfg_timeout config of None \<Rightarrow> timeout this | Some t \<Rightarrow> t)
      in request_loop fetch rt maxAttempts requestTimeout 1
           \<lparr>client = this, lastError = None, calls = 0, sleeps = []\<rparr>)"

section \<open>Webhook verifier (utils/webhooks.ts)\<close>

record VerifyWebhookSignatureOptions =
  payload :: string
  signature :: string
  timestamp :: string
  secret :: string
  tolerance :: "int option"

record WebhookVerificationResult =
  valid :: bool
  verification_error :: "string option"

text \<open>
  The platform's HMAC-SHA256 is a parameter: a function from key and message to the
  bytes of the digest. \<open>digest('hex')\<close> writes each byte as two lower-case hexadecimal
  digits.
\<close>

type_synonym hmac_sha256 = "string \<Rightarrow> string \<Rightarrow> 8 word list"

definition hexDigit :: "nat \<Rightarrow> char" where
  "hexDigit n = (if n < 10 then char_of (48 + n) else char_of (87 + n))"

definition hexByte :: "8 word \<Rightarrow> string" where
  "hexByte b = [hexDigit (unat b div 16), hexDigit (unat b mod 16)]"

definition hex :: "8 word list \<Rightarrow> string" where
  "hex bs = concat (map hexByte bs)"

text \<open>
  The calls into the cryptographic library that a verification makes, in order, so that
  a run which never reaches them is told apart from one that does.
\<close>

datatype crypto_call = ComputeHmac string string | CompareDigests string string

text \<open>
  \<open>verifyWithNodeCrypto\<close>. \<open>timingSafeEqual\<close> throws when its two buffers differ in
  length; the \<open>catch\<close> turns that into a result with Node's message.
\<close>

definition verifyWithNodeCrypto ::
  "hmac_sha256 \<Rightarrow> string \<Rightarrow> string \<Rightarrow> string \<Rightarrow> WebhookVerificationResult \<times> crypto_call list" where
  "verifyWithNodeCrypto H signedPayload receivedSignature sec =
     (let expectedSignature = hex (H sec signedPayload);
          trace = [ComputeHmac sec signedPayload,
                   CompareDigests receivedSignature expectedSignature]
      in if length receivedSignature \<noteq> length expectedSignature
         then (\<lparr>valid = False,
                verification_error =
                  Some (''Signature verification failed: '' @
                        ''Input buffers must have the same byte length'')\<rparr>, trace)
         else (\<lparr>valid = (receivedSignature = expectedSignature), verification_error = None\<rparr>,
               trace))"

definition invalid :: "string \<Rightarrow> WebhookVerificationResult \<times> crypto_call list" where
  "invalid reason = (\<lparr>valid = False, verification_error = Some reason\<rparr>, [])"

text \<open>
  \<open>verifyWebhookSignatureWithReason\<close>; \<open>now\<close> is \<open>Math.floor(Date.now() / 1000)\<close>.
  A comparison with \<open>NaN\<close> is false, so the freshness test is only reached with a
  parsed timestamp.
\<close>

definition verifyWebhookSignatureWithReason ::
  "hmac_sha256 \<Rightarrow> int \<Rightarrow> VerifyWebhookSignatureOptions
     \<Rightarrow> WebhookVerificationResult \<times> crypto_call list" where
  "verifyWebhookSignatureWithReason H now opts =
     (let tol = (case tolerance opts of None \<Rightarrow> 300 | Some t \<Rightarrow> t)
      in if payload opts = [] \<or> signature opts = [] \<or> timestamp opts = [] \<or> secret opts = []
         then invalid ''Missing required parameters for signature verification''
         else (case parseInt (timestamp opts) of
                 NaN \<Rightarrow> invalid ''Invalid timestamp format''
               | Num webhookTimestamp \<Rightarrow>
                   if \<bar>now - webhookTimestamp\<bar> > tol
                   then invalid (''Webhook timestamp is outside tolerance ('' @
                                  intToString tol @ ''s)'')
                   else (case split (signature opts) CHR ''='' of
                           [version, receivedSignature] \<Rightarrow>
                             if version \<noteq> ''v1''
                             then invalid (''Unknown signature version: '' @ version)
                             else verifyWithNodeCrypto H
                                    (timestamp opts @ ''.'' @ payload opts)
                                    receivedSignature (secret opts)
                         | _ \<Rightarrow> invalid ''Invalid signature format'')))"

definition verifyWebhookSignature ::
  "hmac_sha256 \<Rightarrow> int \<Rightarrow> VerifyWebhookSignatureOptions \<Rightarrow> bool" where
  "verifyWebhookSignature H now opts = valid (fst (verifyWebhookSignatureWithReason H now opts))"

text \<open>
  \<open>verifyWebhookSignatureAsync\<close>, on the Web Crypto API: one test covers both the number
  of parts and the version, and the digests are compared as strings.
\<close>

definition verifyWebhookSignatureAsync ::
  "hmac_sha256 \<Rightarrow> int \<Rightarrow> VerifyWebhookSignatureOptions
     \<Rightarrow> WebhookVerificationResult \<times> crypto_call list" where
  "verifyWebhookSignatureAsync H now opts =
     (let tol = (case tolerance opts of None \<Rightarrow> 300 | Some t \<Rightarrow> t)
      in if payload opts = [] \<or> signature opts = [] \<or> timestamp opts = [] \<or> secret opts = []
         then invalid ''Missing required parameters for signature verification''
         else (case parseInt (timestamp opts) of
                 NaN \<Rightarrow> invalid ''Invalid timestamp format''
               | Num webhookTimestamp \<Rightarrow>
                   if \<bar>now - webhookTimestamp\<bar> > tol
                   then invalid (''Webhook timestamp is outside tolerance ('' @
                                  intToString tol @ ''s)'')
                   else (case split (signature opts) CHR ''='' of
                           [version, receivedSignature] \<Rightarrow>
                             if version \<noteq> ''v1''
                             then invalid ''Invalid signature format''
                             else (let signedPayload = timestamp opts @ ''.'' @ payload opts;
                                       expectedSignature = hex (H (secret opts) signedPayload)
                                   in (\<lparr>valid = (expectedSignature = receivedSignature),
                                        verification_error = None\<rparr>,
                                       [ComputeHmac (secret opts) signedPayload,
                                        CompareDigests receivedSignature expectedSignature]))
                         | _ \<Rightarrow> invalid ''Invalid signature format'')))"

text \<open>\<open>generateTestSignature\<close>: the pair of header values for a payload.\<close>

record SignedHeaders =
  signature_header :: string
  timestamp_header :: string

definition generateTestSignature ::
  "hmac_sha256 \<Rightarrow> int \<Rightarrow> string \<Rightarrow> string \<Rightarrow> int option \<Rightarrow> SignedHeaders" where
  "generateTestSignature H now pl sec ts_opt =
     (let ts = (case ts_opt of None \<Rightarrow> now | Some t \<Rightarrow> t);
          signedPayload = intToString ts @ ''.'' @ pl;
          sig = hex (H sec signedPayload)
      in \<lparr>signature_header = ''v1='' @ sig, timestamp_header = intToString ts\<rparr>)"

text \<open>
  The order of the checks as the specification lists it: each check with the reason it
  reports, and the reason of the first check that fails. The second list is the same
  with the one reason that the asynchronous verifier gives to a wrong version.
\<close>

definition spec_checks :: "int \<Rightarrow> VerifyWebhookSignatureOptions \<Rightarrow> (bool \<times> string) list" where
  "spec_checks now opts =
     (let tol = (case tolerance opts of None \<Rightarrow> 300 | Some t \<Rightarrow> t);
          parts = split (signature opts) CHR ''=''
      in [(payload opts = [] \<or> signature opts = [] \<or> timestamp opts = [] \<or> secret opts = [],
           ''Missing required parameters for signature verification''),
          (isNaN (parseInt (timestamp opts)), ''Invalid timestamp format''),
          ((case parseInt (timestamp opts) of NaN \<Rightarrow> False | Num t \<Rightarrow> \<bar>now - t\<bar> > tol),
           ''Webhook timestamp is outside tolerance ('' @ intToString tol @ ''s)''),
          (length parts \<noteq> 2, ''Invalid signature format''),
          (hd parts \<noteq> ''v1'', ''Unknown signature version: '' @ hd parts)])"

definition spec_checks_async :: "int \<Rightarrow> VerifyWebhookSignatureOptions \<Rightarrow> (bool \<times> string) list" where
  "spec_checks_async now opts =
     butlast (spec_checks now opts) @
       [(hd (split (signature opts) CHR ''='') \<noteq> ''v1'', ''Invalid signature format'')]"

definition first_failure :: "(bool \<times> string) list \<Rightarrow> string option" where
  "first_failure checks = map_option snd (find fst checks)"

text \<open>A stand-in for the digest primitive, to evaluate examples: the bytes of the message.\<close>

definition example_hmac :: hmac_sha256 where
  "example_hmac key msg = map (\<lambda>c. of_nat (of_char c)) msg"

section \<open>Pagination iterator (utils/pagination.ts)\<close>

record 'a PaginatedResponse =
  data :: "'a list"
  total :: int
  resp_page :: int
  resp_per_page :: int
  total_pages :: int

record AutoPaginateOptions =
  page :: "int option"
  per_page :: "int option"
  maxItems :: "int option"

text \<open>
  The iterator object. Its client and path are the environment: \<open>get p n\<close> is the
  outcome of \<open>client.get(path, {...options, page: p, per_page: n})\<close>, a thrown value or
  the response. Every such call is appended to a log of the pages requested.
\<close>

record PaginatedIterator =
  options :: AutoPaginateOptions
  perPage :: int
  currentPage :: int
  totalPages :: "int option"
  itemsYielded :: int

type_synonym 'a page_source = "int \<Rightarrow> int \<Rightarrow> thrown + 'a PaginatedResponse"

type_synonym fetch_log = "(int \<times> int) list"

definition new_PaginatedIterator :: "AutoPaginateOptions \<Rightarrow> PaginatedIterator" where
  "new_PaginatedIterator opts =
     \<lparr>options = opts,
      perPage = (case per_page opts of None \<Rightarrow> 100 | Some n \<Rightarrow> n),
      currentPage = (case page opts of None \<Rightarrow> 1 | Some p \<Rightarrow> p),
      totalPages = None,
      itemsYielded = 0\<rparr>"

text \<open>\<open>maxItems && this.itemsYielded >= maxItems\<close>: an absent or zero cap is falsy.\<close>

definition capped :: "PaginatedIterator \<Rightarrow> bool" where
  "capped it =
     (case maxItems (options it) of None \<Rightarrow> False | Some m \<Rightarrow> m \<noteq> 0 \<and> itemsYielded it \<ge> m)"

text \<open>
  The async generator is a coroutine. A point of it is where it stands between two
  pulls: not started, at the top of the \<open>while\<close> loop, inside the \<open>for\<close> loop with the
  items of the page still to visit, behind the \<open>for\<close> loop, or suspended at a
  \<open>yield\<close> (with the rest of the page). Running it from a point ends in one event:
  an item is yielded, the generator returns, or the page request throws.
\<close>

datatype 'a gen_point = Begin | LoopTop | ForItems "'a list" | AfterPage | AfterYield "'a list"

datatype 'a gen_event = Yield 'a "'a list" | Finished | Failed thrown

text \<open>
  The server decides the number of pages anew in every response, so the loop need not
  end; a run that never reaches an event has the value \<open>None\<close>.
\<close>

partial_function (option) resume ::
  "'a page_source \<Rightarrow> 'a gen_point \<Rightarrow> PaginatedIterator \<Rightarrow> fetch_log
     \<Rightarrow> ('a gen_event \<times> PaginatedIterator \<times> fetch_log) option" where
  "resume get pt it log =
     (case pt of
        Begin \<Rightarrow>
          resume get LoopTop
            (it\<lparr>currentPage := (case page (options it) of None \<Rightarrow> 1 | Some p \<Rightarrow> p),
                itemsYielded := 0, totalPages := None\<rparr>) log
      | LoopTop \<Rightarrow>
          if capped it then Some (Finished, it, log)
          else (case get (currentPage it) (perPage it) of
                  Inl e \<Rightarrow> Some (Failed e, it, log @ [(currentPage it, perPage it)])
                | Inr page_response \<Rightarrow>
                    resume get (ForItems (data page_response))
                      (it\<lparr>totalPages := Some (total_pages page_response)\<rparr>)
                      (log @ [(currentPage it, perPage it)]))
      | ForItems items \<Rightarrow>
          (case items of
             [] \<Rightarrow> resume get AfterPage it log
           | item # rest \<Rightarrow>
               if capped it then resume get AfterPage it log
               else Some (Yield item rest, it, log))
      | AfterPage \<Rightarrow>
          if currentPage it \<ge> (case totalPages it of None \<Rightarrow> 0 | Some tp \<Rightarrow> tp)
          then Some (Finished, it, log)
          else resume get LoopTop (it\<lparr>currentPage := currentPage it + 1\<rparr>) log
      | AfterYield rest \<Rightarrow>
          resume get (ForItems rest) (it\<lparr>itemsYielded := itemsYielded it + 1\<rparr>) log)"

text \<open>
  \<open>toArray\<close>: a \<open>for await\<close> loop that pulls until the generator returns or throws.
\<close>

partial_function (option) toArray_loop ::
  "'a page_source \<Rightarrow> 'a gen_point \<Rightarrow> PaginatedIterator \<Rightarrow> 'a list \<Rightarrow> fetch_log
     \<Rightarrow> ((thrown + 'a list) \<times> PaginatedIterator \<times> fetch_log) option" where
  "toArray_loop get pt it items log =
     (case resume get pt it log of
        None \<Rightarrow> None
      | Some (ev, it', log') \<Rightarrow>
          (case ev of
             Yield item rest \<Rightarrow> toArray_loop get (AfterYield rest) it' (items @ [item]) log'
           | Finished \<Rightarrow> Some (Inr items, it', log')
           | Failed e \<Rightarrow> Some (Inl e, it', log')))"

definition toArray ::
  "'a page_source \<Rightarrow> PaginatedIterator
     \<Rightarrow> ((thrown + 'a list) \<times> PaginatedIterator \<times> fetch_log) option" where
  "toArray get it = toArray_loop get Begin it [] []"

text \<open>
  \<open>take(n)\<close>: the loop pulls an item first and tests \<open>count >= n\<close> in its body; the
  \<open>break\<close> leaves the generator suspended at the \<open>yield\<close> of the item just pulled.
\<close>

partial_function (option) take_loop ::
  "'a page_source \<Rightarrow> int \<Rightarrow> 'a gen_point \<Rightarrow> PaginatedIterator \<Rightarrow> 'a list \<Rightarrow> int \<Rightarrow> fetch_log
     \<Rightarrow> ((thrown + 'a list) \<times> PaginatedIterator \<times> fetch_log) option" where
  "take_loop get n pt it items count log =
     (case resume get pt it log of
        None \<Rightarrow> None
      | Some (ev, it', log') \<Rightarrow>
          (case ev of
             Yield item rest \<Rightarrow>
               if count \<ge> n then Some (Inr items, it', log')
               else take_loop get n (AfterYield rest) it' (items @ [item]) (count + 1) log'
           | Finished \<Rightarrow> Some (Inr items, it', log')
           | Failed e \<Rightarrow> Some (Inl e, it', log')))"

definition take_items ::
  "'a page_source \<Rightarrow> int \<Rightarrow> PaginatedIterator
     \<Rightarrow> ((thrown + 'a list) \<times> PaginatedIterator \<times> fetch_log) option" where
  "take_items get n it = take_loop get n Begin it [] 0 []"

text \<open>
  A list endpoint over a fixed data set, as the wire protocol describes it: page \<open>p\<close>
  of size \<open>n\<close> holds the items from position \<open>(p - 1) * n\<close> on, at most \<open>n\<close> of
  them, and the number of pages is the number of items divided by \<open>n\<close>, rounded up.
\<close>

definition list_endpoint :: "'a list \<Rightarrow> 'a page_source" where
  "list_endpoint items p n =
     Inr \<lparr>data = take (nat n) (drop (nat ((p - 1) * n)) items),
          total = int (length items),
          resp_page = p,
          resp_per_page = n,
          total_pages = (int (length items) + n - 1) div n\<rparr>"

section \<open>Auxiliary definitions for the statements\<close>

text \<open>
  An outcome of a call after which the loop goes on to the next attempt whenever one
  remains: a rejection, a successful response whose body cannot be read, an error
  response with the body \<open>null\<close>, or an error response with status 429 or at least 500.
\<close>

definition retryable :: "responseType \<Rightarrow> 'a fetch_outcome \<Rightarrow> bool" where
  "retryable rt outcome =
     (case outcome of
        Rejected e \<Rightarrow> True
      | Responded r \<Rightarrow>
          if ok r then (case resp_read r rt of Inl e \<Rightarrow> True | Inr v \<Rightarrow> False)
          else (case safeParseJson r of
                  JsonNull \<Rightarrow> True
                | JsonValue body \<Rightarrow> resp_status r = 429 \<or> resp_status r \<ge> 500))"


text \<open>Concrete inputs on which the statements below are evaluated.\<close>

definition example_client :: HttpClient where
  "example_client =
     \<lparr>apiKey = ''key'', baseUrl = ''https://hisab.ma/api/v1'', timeout = 30000,
      maxRetries = 3, debug = False, lastRateLimit = None\<rparr>"

definition example_config :: "int option \<Rightarrow> RequestConfig" where
  "example_config retries =
     \<lparr>cfg_timeout = None, cfg_retries = retries, cfg_responseType = None\<rparr>"


definition example_response :: "int \<Rightarrow> Headers \<Rightarrow> parsed_json option \<Rightarrow> unit Response" where
  "example_response st hs body =
     \<lparr>resp_status = st, resp_statusText = [], resp_headers = hs, resp_errorJson = body,
      resp_read = (\<lambda>rt. Inr ())\<rparr>"

definition every_call :: "'a fetch_outcome \<Rightarrow> nat \<Rightarrow> 'a fetch_outcome" where
  "every_call outcome k = outcome"




definition example_options :: HisabClientOptions where
  "example_options =
     \<lparr>opt_apiKey = ''key'', opt_baseUrl = None, opt_timeout = None, opt_retries = None,
      opt_debug = None\<rparr>"

definition example_rate_headers :: Headers where
  "example_rate_headers =
     [''X-RateLimit-Limit'' \<mapsto> ''100'', ''X-RateLimit-Remaining'' \<mapsto> ''45'',
      ''X-RateLimit-Reset'' \<mapsto> ''1700000000'']"

definition empty_limit_headers :: Headers where
  "empty_limit_headers =
     [''X-RateLimit-Limit'' \<mapsto> [], ''X-RateLimit-Remaining'' \<mapsto> ''45'',
      ''X-RateLimit-Reset'' \<mapsto> ''1700000000'']"

definition example_webhook :: "string \<Rightarrow> string \<Rightarrow> VerifyWebhookSignatureOptions" where
  "example_webhook pl sig =
     \<lparr>payload = pl, signature = sig, timestamp = ''1700000000'', secret = ''whsec'',
      tolerance = None\<rparr>"

text \<open>
  An iterator, or a set of options, on which the cap test is always false: the cap is
  absent or zero.
\<close>

definition uncapped :: "PaginatedIterator \<Rightarrow> bool" where
  "uncapped it = (maxItems (options it) = None \<or> maxItems (options it) = Some 0)"

definition no_cap :: "AutoPaginateOptions \<Rightarrow> bool" where
  "no_cap opts = (maxItems opts = None \<or> maxItems opts = Some 0)"

text \<open>
  What a consumer observes of a run: the items or the error, and the page requests made.
\<close>

definition observed ::
  "((thrown + 'a list) \<times> PaginatedIterator \<times> fetch_log) option
     \<Rightarrow> ((thrown + 'a list) \<times> fetch_log) option" where
  "observed run = map_option (\<lambda>(res, it, log). (res, log)) run"

text \<open>
  The options of the example traversals (page size 100, from the first page), and the
  iterator object as such a traversal leaves it.
\<close>

definition list_options :: "int option \<Rightarrow> AutoPaginateOptions" where
  "list_options cap = \<lparr>page = None, per_page = Some 100, maxItems = cap\<rparr>"

definition after_traversal :: "int option \<Rightarrow> int \<Rightarrow> int \<Rightarrow> PaginatedIterator" where
  "after_traversal cap p n =
     \<lparr>options = list_options cap, perPage = 100, currentPage = p, totalPages = Some 3,
      itemsYielded = n\<rparr>"

section \<open>Properties of the error factory\<close>

declare natToString.simps [simp del]

lemmas constructor_defs =
  new_HisabError_def new_ValidationError_def new_AuthenticationError_def
  new_ForbiddenError_def new_NotFoundError_def new_RateLimitError_def
  new_NetworkError_def new_TimeoutError_def

lemma parseInt_60: "parseInt ''60'' = Num 60"
  by (simp add: parseInt_def isWhiteSpace_def isDigit_def digitsValue_def digitValue_def)

text \<open>
  Claim C1. For every status, body and optional headers the factory returns the variant
  that belongs to the status: 400 a \<open>ValidationError\<close>, 401 an \<open>AuthenticationError\<close>,
  403 a \<open>ForbiddenError\<close>, 404 a \<open>NotFoundError\<close>, 429 a \<open>RateLimitError\<close>, and the
  base \<open>HisabError\<close> for any other status. The \<open>status\<close> field is the input status in
  every case. For 429 the \<open>retryAfter\<close> field is \<open>parseInt\<close> of the \<open>Retry-After\<close>
  header, and 60 when the header is missing or no headers are passed.
\<close>

theorem fromResponse_variant:
  "proto (fromResponse st body headers) =
     (if st = 400 then ValidationError_class
      else if st = 401 then AuthenticationError_class
      else if st = 403 then ForbiddenError_class
      else if st = 404 then NotFoundError_class
      else if st = 429 then RateLimitError_class
      else HisabError_class)
   \<and> status (fromResponse st body headers) = st
   \<and> retryAfter (fromResponse st body headers) =
       (if st = 429
        then Some (case headers of
                     None \<Rightarrow> Num 60
                   | Some h \<Rightarrow> (case h ''Retry-After'' of None \<Rightarrow> Num 60 | Some v \<Rightarrow> parseInt v))
        else None)"
  by (simp add: fromResponse_def constructor_defs Let_def parseInt_60 split: option.split)

text \<open>
  Claim C8, as the code has it. When the error object of the body omits a message, the
  factory applies one default message, \<open>An unknown error occurred\<close>, for every status,
  401, 403 and 404 included. The messages \<open>Invalid or missing API key\<close>,
  \<open>Insufficient permissions\<close> and \<open>Resource not found\<close> are the defaults of the
  constructors, which apply when a constructor is called without a message; the factory
  always passes one.
\<close>

theorem fromResponse_default_message:
  "((case error body of None \<Rightarrow> None | Some e \<Rightarrow> error_message e) = None \<longrightarrow>
      message (fromResponse st body headers) = ''An unknown error occurred'')
   \<and> message (new_AuthenticationError None c r) = ''Invalid or missing API key''
   \<and> message (new_ForbiddenError None c r) = ''Insufficient permissions''
   \<and> message (new_NotFoundError None c r) = ''Resource not found''"
  by (simp add: fromResponse_def constructor_defs Let_def split: option.splits)

theorem fromResponse_default_message_witness:
  "(case error \<lparr>error = None\<rparr> of None \<Rightarrow> None | Some e \<Rightarrow> error_message e) = None
   \<and> message (fromResponse 401 \<lparr>error = None\<rparr> None) = ''An unknown error occurred''
   \<and> message (fromResponse 403 \<lparr>error = None\<rparr> None) = ''An unknown error occurred''
   \<and> message (fromResponse 404 \<lparr>error = None\<rparr> None) = ''An unknown error occurred''"
  using fromResponse_default_message [of "\<lparr>error = None\<rparr>" 401 None]
    fromResponse_default_message [of "\<lparr>error = None\<rparr>" 403 None]
    fromResponse_default_message [of "\<lparr>error = None\<rparr>" 404 None]
  by simp

text \<open>
  The claim as the specification words it fails: a 401 response whose error object has
  no message does not get the message \<open>Invalid or missing API key\<close>.
\<close>

theorem fromResponse_401_message_counterexample:
  "message (fromResponse 401
      \<lparr>error = Some \<lparr>error_code = None, error_message = None, error_details = None\<rparr>\<rparr> None)
     \<noteq> ''Invalid or missing API key''"
  by (simp add: fromResponse_def constructor_defs)

section \<open>Properties of the transport core\<close>

declare request_loop.simps [simp del]

text \<open>
  When the body of a first response with a status from 400 to 499 other than 429 parses
  to a value other than \<open>null\<close>, or does not parse at all, \<open>request\<close> makes exactly
  one transport call, waits for nothing, and fails with the error that the factory
  builds from the status, the body and the headers, whatever the retry budget (a
  response exists only if the loop runs, that is, if the budget is not negative).
\<close>

lemma client_error_not_retried:
  assumes "fetch 0 = Responded r"
    and "400 \<le> resp_status r" and "resp_status r < 500" and "resp_status r \<noteq> 429"
    and "0 \<le> (case cfg_retries config of None \<Rightarrow> maxRetries this | Some n \<Rightarrow> n)"
    and "safeParseJson r = JsonValue body"
  shows "request fetch this config =
           (Inl (Typed (fromResponse (resp_status r) body (Some (resp_headers r)))),
            \<lparr>client = parseRateLimitHeaders (resp_headers r) this,
             lastError = Some (Typed (fromResponse (resp_status r) body
                                        (Some (resp_headers r)))),
             calls = 1, sleeps = []\<rparr>)"
  using assms
  by (simp add: request_def Let_def request_loop.simps attempt_body_def ok_def)

lemma client_error_not_retried_example:
  "fst (request (every_call (Responded (example_response 404 Map.empty None)))
            example_client (example_config (Some 5))) =
       Inl (Typed (new_NotFoundError (Some ''Unknown error'') (Some ''UNKNOWN_ERROR'')
                     (Some \<lparr>error = Some \<lparr>error_code = None,
                                            error_message = Some ''Unknown error'',
                                            error_details = None\<rparr>\<rparr>)))
   \<and> calls (snd (request (every_call (Responded (example_response 404 Map.empty None)))
                    example_client (example_config (Some 5)))) = 1"
  using client_error_not_retried
    [where fetch = "every_call (Responded (example_response 404 Map.empty None))"
       and r = "example_response 404 Map.empty None"
       and config = "example_config (Some 5)" and this = example_client
       and body = "\<lparr>error = Some \<lparr>error_code = None,
                                     error_message = Some ''Unknown error'',
                                     error_details = None\<rparr>\<rparr>"]
  by (simp add: every_call_def example_response_def example_config_def example_client_def
      fromResponse_def safeParseJson_def)

text \<open>
  Claim C2, at the input where the code departs from it. A 404 response whose body is
  the JSON literal \<open>null\<close> is not failed at once: the factory throws a \<open>TypeError\<close>
  inside \<open>try\<close>, the \<open>catch\<close> block treats it as it treats a network failure, and with
  the default budget of three retries \<open>request\<close> makes four transport calls, waits
  for three backoff delays, and raises the raw \<open>TypeError\<close> instead of a
  \<open>NotFoundError\<close>.
\<close>

theorem null_body_client_error_retried:
  "request (every_call (Responded (example_response 404 Map.empty (Some JsonNull))))
     example_client (example_config None) =
     (Inl (Raw null_body_error),
      \<lparr>client = example_client, lastError = Some (Raw null_body_error), calls = 4,
       sleeps = [Backoff 1, Backoff 2, Backoff 3]\<rparr>)"
  by (simp add: request_def request_loop.simps attempt_body_def catch_raw_def ok_def
      safeParseJson_def parseRateLimitHeaders_def truthy_def every_call_def
      example_response_def example_config_def example_client_def null_body_error_def)

text \<open>
  Claim C9, as the code has it. A new client has no snapshot. A response whose three
  rate-limit headers are all present with a non-empty value replaces the snapshot by
  \<open>parseInt\<close> of the three values; a response in which one of the three is missing or
  empty leaves the client as it was. The loop applies this to the headers of every
  response it receives, before it looks at the status.
\<close>

theorem rate_limit_snapshot:
  "(new_HttpClient opts = Inr c \<longrightarrow> lastRateLimit c = None)
   \<and> (headers ''X-RateLimit-Limit'' = Some l \<and> l \<noteq> []
        \<and> headers ''X-RateLimit-Remaining'' = Some r \<and> r \<noteq> []
        \<and> headers ''X-RateLimit-Reset'' = Some rs \<and> rs \<noteq> [] \<longrightarrow>
       lastRateLimit (parseRateLimitHeaders headers this) =
         Some \<lparr>limit = parseInt l, remaining = parseInt r, reset = parseInt rs\<rparr>)
   \<and> (headers ''X-RateLimit-Limit'' \<in> {None, Some []}
        \<or> headers ''X-RateLimit-Remaining'' \<in> {None, Some []}
        \<or> headers ''X-RateLimit-Reset'' \<in> {None, Some []} \<longrightarrow>
       parseRateLimitHeaders headers this = this)
   \<and> (fetch (calls st) = Responded resp \<longrightarrow>
       client (snd (attempt_body fetch rt maxAttempts requestTimeout attempt st)) =
         parseRateLimitHeaders (resp_headers resp) (client st))"
proof (intro conjI impI)
  assume "new_HttpClient opts = Inr c"
  then show "lastRateLimit c = None"
    by (auto simp: new_HttpClient_def split: if_splits)
next
  assume "headers ''X-RateLimit-Limit'' = Some l \<and> l \<noteq> []
        \<and> headers ''X-RateLimit-Remaining'' = Some r \<and> r \<noteq> []
        \<and> headers ''X-RateLimit-Reset'' = Some rs \<and> rs \<noteq> []"
  then show "lastRateLimit (parseRateLimitHeaders headers this) =
         Some \<lparr>limit = parseInt l, remaining = parseInt r, reset = parseInt rs\<rparr>"
    by (simp add: parseRateLimitHeaders_def truthy_def)
next
  assume "headers ''X-RateLimit-Limit'' \<in> {None, Some []}
        \<or> headers ''X-RateLimit-Remaining'' \<in> {None, Some []}
        \<or> headers ''X-RateLimit-Reset'' \<in> {None, Some []}"
  then show "parseRateLimitHeaders headers this = this"
    by (auto simp: parseRateLimitHeaders_def truthy_def)
next
  assume "fetch (calls st) = Responded resp"
  then show "client (snd (attempt_body fetch rt maxAttempts requestTimeout attempt st)) =
         parseRateLimitHeaders (resp_headers resp) (client st)"
    by (simp add: attempt_body_def catch_raw_def Let_def split: sum.split parsed_json.split)
qed

lemma parseInt_examples:
  "parseInt ''100'' = Num 100" "parseInt ''45'' = Num 45"
  "parseInt ''1700000000'' = Num 1700000000"
  by (simp_all add: parseInt_def isWhiteSpace_def isDigit_def digitsValue_def digitValue_def)

theorem rate_limit_snapshot_witness:
  "new_HttpClient example_options = Inr example_client
   \<and> lastRateLimit example_client = None
   \<and> lastRateLimit (parseRateLimitHeaders example_rate_headers example_client) =
       Some \<lparr>limit = Num 100, remaining = Num 45, reset = Num 1700000000\<rparr>
   \<and> parseRateLimitHeaders Map.empty (parseRateLimitHeaders example_rate_headers example_client) =
       parseRateLimitHeaders example_rate_headers example_client
   \<and> client (snd (attempt_body
                    (every_call (Responded (example_response 500 example_rate_headers None)))
                    Json 1 30000 1
                    \<lparr>client = example_client, lastError = None, calls = 0, sleeps = []\<rparr>)) =
       parseRateLimitHeaders example_rate_headers example_client"
  using rate_limit_snapshot
    [where opts = example_options and c = example_client
       and headers = example_rate_headers and this = example_client
       and l = "''100''" and r = "''45''" and rs = "''1700000000''"
       and fetch = "every_call (Responded (example_response 500 example_rate_headers None))"
       and st = "\<lparr>client = example_client, lastError = None, calls = 0, sleeps = []\<rparr>"
       and resp = "example_response 500 example_rate_headers None"
       and rt = Json and maxAttempts = 1 and requestTimeout = 30000 and attempt = 1]
    rate_limit_snapshot
    [where opts = example_options and c = example_client
       and headers = Map.empty
       and this = "parseRateLimitHeaders example_rate_headers example_client"
       and l = "''100''" and r = "''45''" and rs = "''1700000000''"
       and fetch = "every_call (Responded (example_response 500 example_rate_headers None))"
       and st = "\<lparr>client = example_client, lastError = None, calls = 0, sleeps = []\<rparr>"
       and resp = "example_response 500 example_rate_headers None"
       and rt = Json and maxAttempts = 1 and requestTimeout = 30000 and attempt = 1]
  by (simp add: new_HttpClient_def example_options_def example_client_def
      example_rate_headers_def every_call_def example_response_def parseInt_examples)

text \<open>
  The claim as the specification words it fails: a response that carries all three
  headers, one of them with an empty value, does not change the snapshot.
\<close>

theorem empty_header_counterexample:
  "empty_limit_headers ''X-RateLimit-Limit'' \<noteq> None
   \<and> empty_limit_headers ''X-RateLimit-Remaining'' \<noteq> None
   \<and> empty_limit_headers ''X-RateLimit-Reset'' \<noteq> None
   \<and> lastRateLimit (parseRateLimitHeaders empty_limit_headers example_client) = None"
  by (simp add: parseRateLimitHeaders_def truthy_def example_client_def empty_limit_headers_def)



lemma proto_rate_limit_iff:
  "proto (fromResponse st body headers) = RateLimitError_class \<longleftrightarrow> st = 429"
  by (simp add: fromResponse_def constructor_defs Let_def)

lemma catch_raw_continues:
  "fst (catch_raw maxAttempts tm attempt e st) = Continue \<longleftrightarrow> attempt < maxAttempts"
  by (simp add: catch_raw_def Let_def)

lemma attempt_body_continues:
  "fst (attempt_body fetch rt maxAttempts tm attempt st) = Continue \<longleftrightarrow>
     retryable rt (fetch (calls st)) \<and> attempt < maxAttempts"
proof (cases "fetch (calls st)")
  case (Rejected e)
  then show ?thesis
    by (simp add: attempt_body_def retryable_def catch_raw_continues)
next
  case (Responded r)
  show ?thesis
  proof (cases "ok r")
    case True
    then show ?thesis
      using Responded
      by (cases "resp_read r rt")
         (simp_all add: attempt_body_def retryable_def catch_raw_continues)
  next
    case False
    show ?thesis
    proof (cases "safeParseJson r")
      case JsonNull
      then show ?thesis
        using Responded False
        by (simp add: attempt_body_def retryable_def catch_raw_continues)
    next
      case (JsonValue body)
      then show ?thesis
        using Responded False
        by (auto simp: attempt_body_def retryable_def Let_def proto_rate_limit_iff)
    qed
  qed
qed








section \<open>Properties of the webhook verifier\<close>

lemma of_char_digitChar: "d < 10 \<Longrightarrow> (of_char (digitChar d) :: nat) = 48 + d"
  by (simp add: digitChar_def)

lemma isDigit_digitChar: "d < 10 \<Longrightarrow> isDigit (digitChar d)"
  by (simp add: isDigit_def of_char_digitChar)

lemma digitValue_digitChar: "d < 10 \<Longrightarrow> digitValue (digitChar d) = d"
  by (simp add: digitValue_def of_char_digitChar)

lemma digitsValue_snoc: "digitsValue (z @ [c]) = 10 * digitsValue z + digitValue c"
  by (simp add: digitsValue_def)

lemma natToString_digits: "\<forall>c \<in> set (natToString n). isDigit c"
proof (induction n rule: natToString.induct)
  case (1 n)
  then show ?case
    by (subst natToString.simps) (auto simp: isDigit_digitChar)
qed

lemma natToString_nonempty: "natToString n \<noteq> []"
  by (subst natToString.simps) simp

lemma digitsValue_natToString: "digitsValue (natToString n) = n"
proof (induction n rule: natToString.induct)
  case (1 n)
  show ?case
  proof (cases "n < 10")
    case True
    then show ?thesis
      by (subst natToString.simps) (simp add: digitsValue_def digitValue_digitChar)
  next
    case False
    then have "digitsValue (natToString (n div 10)) = n div 10" using 1 by simp
    with False show ?thesis
      by (subst natToString.simps) (simp add: digitsValue_snoc digitValue_digitChar)
  qed
qed

lemma isDigit_plain: "isDigit c \<Longrightarrow> \<not> isWhiteSpace c \<and> c \<noteq> CHR ''+'' \<and> c \<noteq> CHR ''-''"
  by (auto simp: isDigit_def isWhiteSpace_def)

lemma parseInt_digits:
  assumes "z \<noteq> []" and "\<forall>c \<in> set z. isDigit c"
  shows "parseInt z = Num (int (digitsValue z))"
    and "parseInt (CHR ''-'' # z) = Num (- int (digitsValue z))"
proof -
  obtain c cs where z: "z = c # cs" using assms(1) by (cases z) auto
  have c: "\<not> isWhiteSpace c" "c \<noteq> CHR ''+''" "c \<noteq> CHR ''-''"
    using assms(2) isDigit_plain z by auto
  have tw: "takeWhile isDigit z = z" using assms(2) by simp
  have dw: "dropWhile isWhiteSpace z = z" using c z by simp
  have neg: "(case z of [] \<Rightarrow> False | d # ds \<Rightarrow> d = CHR ''-'') = False" using c z by simp
  have rest: "(case z of [] \<Rightarrow> [] | d # ds \<Rightarrow> if d = CHR ''+'' \<or> d = CHR ''-'' then ds else z) = z"
    using c z by simp
  show "parseInt z = Num (int (digitsValue z))"
    using assms(1) by (simp add: parseInt_def dw neg rest tw)
  have "\<not> isWhiteSpace CHR ''-''" by (simp add: isWhiteSpace_def)
  then show "parseInt (CHR ''-'' # z) = Num (- int (digitsValue z))"
    using assms(1) by (simp add: parseInt_def tw)
qed

lemma parseInt_intToString: "parseInt (intToString n) = Num n"
  by (simp add: intToString_def parseInt_digits natToString_nonempty natToString_digits
      digitsValue_natToString)

lemma intToString_nonempty: "intToString n \<noteq> []"
  by (simp add: intToString_def natToString_nonempty)

lemma split_from_no_sep: "sep \<notin> set s \<Longrightarrow> split_from sep cur s = [rev cur @ s]"
  by (induction s arbitrary: cur) auto

lemma split_from_one_sep:
  "sep \<notin> set a \<Longrightarrow> sep \<notin> set b \<Longrightarrow> split_from sep cur (a @ sep # b) = [rev cur @ a, b]"
  by (induction a arbitrary: cur) (auto simp: split_from_no_sep)

lemma split_nonempty: "split s sep \<noteq> []"
proof -
  have "split_from sep cur s \<noteq> []" for cur
    by (induction s arbitrary: cur) auto
  then show ?thesis by (simp add: split_def)
qed

lemma hexDigit_not_eq: "n < 16 \<Longrightarrow> hexDigit n \<noteq> CHR ''=''"
proof
  assume n: "n < 16" and eq: "hexDigit n = CHR ''=''"
  have "(of_char (hexDigit n) :: nat) = (if n < 10 then 48 + n else 87 + n)"
    using n by (simp add: hexDigit_def)
  moreover have "(of_char (hexDigit n) :: nat) = 61" by (simp add: eq)
  ultimately show False using n by (simp split: if_splits)
qed

lemma hexByte_no_eq: "CHR ''='' \<notin> set (hexByte b)"
proof -
  have "unat b < 256" using unsigned_less[of b, where ?'a = nat] by simp
  then have "unat b div 16 < 16" "unat b mod 16 < 16" by auto
  then show ?thesis
    using hexDigit_not_eq[of "unat b div 16"] hexDigit_not_eq[of "unat b mod 16"]
    by (auto simp: hexByte_def)
qed

lemma hex_no_eq: "CHR ''='' \<notin> set (hex bs)"
  by (induction bs) (simp_all add: hex_def hexByte_no_eq)

lemma split_signature:
  "split (CHR ''v'' # CHR ''1'' # CHR ''='' # hex bs) CHR ''='' = [''v1'', hex bs]"
  using split_from_one_sep[of "CHR ''=''" "''v1''" "hex bs" "[]"] hex_no_eq
  by (simp add: split_def)

lemma first_failure_v2:
  "first_failure (spec_checks 1700000000 (example_webhook ''{}'' ''v2=abc'')) =
     Some ''Unknown signature version: v2''"
  "first_failure (spec_checks_async 1700000000 (example_webhook ''{}'' ''v2=abc'')) =
     Some ''Invalid signature format''"
  "first_failure (spec_checks 1700000000 (example_webhook ''{}'' ''v1=abc'')) = None"
  by (simp_all add: first_failure_def spec_checks_def spec_checks_async_def example_webhook_def
      parseInt_examples isNaN_def split_def)

text \<open>
  Claim C3. Both verifiers make their checks in the order: missing parameters, timestamp
  parse, freshness, signature format, version. The first check that fails decides the
  reason returned, and no call into the cryptographic library is made in that case; when
  no check fails, the digest is computed and compared. The synchronous verifier gives
  every check the reason that the claim lists. The asynchronous verifier departs from
  the claim, and from the synchronous verifier, in one reason: it reports a version
  other than \<open>v1\<close> as \<open>Invalid signature format\<close> and not as
  \<open>Unknown signature version: <version>\<close>.
\<close>

theorem webhook_checks_order:
  "(first_failure (spec_checks now opts) = Some reason \<longrightarrow>
      verifyWebhookSignatureWithReason H now opts =
        (\<lparr>valid = False, verification_error = Some reason\<rparr>, []))
   \<and> (first_failure (spec_checks_async now opts) = Some reason \<longrightarrow>
      verifyWebhookSignatureAsync H now opts =
        (\<lparr>valid = False, verification_error = Some reason\<rparr>, []))
   \<and> (first_failure (spec_checks now opts) = None \<longrightarrow>
      snd (verifyWebhookSignatureWithReason H now opts) \<noteq> []
      \<and> snd (verifyWebhookSignatureAsync H now opts) \<noteq> [])"
proof -
  obtain p ps where parts: "split (signature opts) CHR ''='' = p # ps"
    using split_nonempty[of "signature opts" "CHR ''=''"]
    by (cases "split (signature opts) CHR ''=''") auto
  show ?thesis
    by (auto simp: first_failure_def spec_checks_def spec_checks_async_def
          verifyWebhookSignatureWithReason_def verifyWebhookSignatureAsync_def
          verifyWithNodeCrypto_def invalid_def isNaN_def Let_def parts
        split: js_number.splits list.splits if_splits)
qed

theorem webhook_checks_order_witness:
  "first_failure (spec_checks 1700000000 (example_webhook ''{}'' ''v2=abc'')) =
     Some ''Unknown signature version: v2''
   \<and> verifyWebhookSignatureWithReason example_hmac 1700000000
        (example_webhook ''{}'' ''v2=abc'') =
       (\<lparr>valid = False, verification_error = Some ''Unknown signature version: v2''\<rparr>, [])
   \<and> first_failure (spec_checks_async 1700000000 (example_webhook ''{}'' ''v2=abc'')) =
       Some ''Invalid signature format''
   \<and> verifyWebhookSignatureAsync example_hmac 1700000000 (example_webhook ''{}'' ''v2=abc'') =
       (\<lparr>valid = False, verification_error = Some ''Invalid signature format''\<rparr>, [])
   \<and> first_failure (spec_checks 1700000000 (example_webhook ''{}'' ''v1=abc'')) = None
   \<and> snd (verifyWebhookSignatureWithReason example_hmac 1700000000
             (example_webhook ''{}'' ''v1=abc'')) \<noteq> []"
  using webhook_checks_order
    [where now = 1700000000 and opts = "example_webhook ''{}'' ''v2=abc''"
       and reason = "''Unknown signature version: v2''" and H = example_hmac]
    webhook_checks_order
    [where now = 1700000000 and opts = "example_webhook ''{}'' ''v2=abc''"
       and reason = "''Invalid signature format''" and H = example_hmac]
    webhook_checks_order
    [where now = 1700000000 and opts = "example_webhook ''{}'' ''v1=abc''"
       and reason = "''Invalid signature format''" and H = example_hmac]
  by (simp add: first_failure_v2)

text \<open>
  The input at which the asynchronous verifier differs: with the signature \<open>v2=abc\<close>
  the first failing check is the version check, and the reason returned is not
  \<open>Unknown signature version: v2\<close>.
\<close>

theorem async_version_counterexample:
  "verification_error (fst (verifyWebhookSignatureAsync example_hmac 1700000000
      (example_webhook ''{}'' ''v2=abc''))) \<noteq> Some ''Unknown signature version: v2''"
  by (simp add: verifyWebhookSignatureAsync_def example_webhook_def parseInt_examples
      split_def invalid_def)

text \<open>
  Claim C4, as the code has it. For every non-empty payload \<open>P\<close>, non-empty secret
  \<open>S\<close> and integer timestamp \<open>T\<close> within the tolerance of the verification time, the
  pair of header values that \<open>generateTestSignature\<close> produces for \<open>P\<close>, \<open>S\<close> and
  \<open>T\<close> verifies against the same payload and secret, with both verifiers and with
  the boolean form.
\<close>

theorem sign_verify_round_trip:
  assumes "P \<noteq> []" and "S \<noteq> []"
    and "\<bar>now - T\<bar> \<le> (case tol of None \<Rightarrow> 300 | Some t \<Rightarrow> t)"
    and "opts = \<lparr>payload = P,
                 signature = signature_header (generateTestSignature H signed_at P S (Some T)),
                 timestamp = timestamp_header (generateTestSignature H signed_at P S (Some T)),
                 secret = S, tolerance = tol\<rparr>"
  shows "fst (verifyWebhookSignatureWithReason H now opts) =
           \<lparr>valid = True, verification_error = None\<rparr>
         \<and> verifyWebhookSignature H now opts
         \<and> fst (verifyWebhookSignatureAsync H now opts) =
             \<lparr>valid = True, verification_error = None\<rparr>"
  using assms
  by (simp add: verifyWebhookSignatureWithReason_def verifyWebhookSignature_def
      verifyWebhookSignatureAsync_def generateTestSignature_def verifyWithNodeCrypto_def
      Let_def parseInt_intToString intToString_nonempty split_signature)

theorem sign_verify_round_trip_witness:
  "''{}'' \<noteq> [] \<and> ''whsec'' \<noteq> []
   \<and> \<bar>1700000100 - 1700000000\<bar> \<le> (case None of None \<Rightarrow> 300 | Some t \<Rightarrow> (t::int))
   \<and> verifyWebhookSignature example_hmac 1700000100
        \<lparr>payload = ''{}'',
         signature = signature_header
           (generateTestSignature example_hmac 0 ''{}'' ''whsec'' (Some 1700000000)),
         timestamp = timestamp_header
           (generateTestSignature example_hmac 0 ''{}'' ''whsec'' (Some 1700000000)),
         secret = ''whsec'', tolerance = None\<rparr>"
  using sign_verify_round_trip
    [where P = "''{}''" and S = "''whsec''" and now = 1700000100 and T = 1700000000
       and tol = None and H = example_hmac and signed_at = 0
       and opts = "\<lparr>payload = ''{}'',
         signature = signature_header
           (generateTestSignature example_hmac 0 ''{}'' ''whsec'' (Some 1700000000)),
         timestamp = timestamp_header
           (generateTestSignature example_hmac 0 ''{}'' ''whsec'' (Some 1700000000)),
         secret = ''whsec'', tolerance = None\<rparr>"]
  by simp

text \<open>
  The claim as the specification words it fails for the empty payload: the signer signs
  it, and the verifier rejects the pair as missing a parameter, at a timestamp equal to
  the verification time.
\<close>

theorem empty_payload_counterexample:
  "\<bar>1700000000 - 1700000000\<bar> \<le> (300::int)
   \<and> verifyWebhookSignatureWithReason example_hmac 1700000000
        \<lparr>payload = [],
         signature = signature_header
           (generateTestSignature example_hmac 0 [] ''whsec'' (Some 1700000000)),
         timestamp = timestamp_header
           (generateTestSignature example_hmac 0 [] ''whsec'' (Some 1700000000)),
         secret = ''whsec'', tolerance = None\<rparr> =
       (\<lparr>valid = False,
         verification_error = Some ''Missing required parameters for signature verification''\<rparr>,
        [])"
  by (simp add: verifyWebhookSignatureWithReason_def invalid_def)

section \<open>Properties of the pagination iterator\<close>

lemma uncapped_not_capped: "uncapped it \<Longrightarrow> \<not> capped it"
  by (auto simp: uncapped_def capped_def)

lemma uncapped_update [simp]:
  "uncapped (it\<lparr>itemsYielded := n\<rparr>) = uncapped it"
  "uncapped (it\<lparr>currentPage := p\<rparr>) = uncapped it"
  "uncapped (it\<lparr>totalPages := tp\<rparr>) = uncapped it"
  by (simp_all add: uncapped_def)

lemma update_order [simp]:
  "it\<lparr>currentPage := c, options := opts\<rparr> = it\<lparr>options := opts, currentPage := c\<rparr>"
  "it\<lparr>totalPages := tp, options := opts\<rparr> = it\<lparr>options := opts, totalPages := tp\<rparr>"
  "it\<lparr>itemsYielded := n, options := opts\<rparr> = it\<lparr>options := opts, itemsYielded := n\<rparr>"
  "it\<lparr>totalPages := tp, currentPage := c\<rparr> = it\<lparr>currentPage := c, totalPages := tp\<rparr>"
  "it\<lparr>itemsYielded := n, currentPage := c\<rparr> = it\<lparr>currentPage := c, itemsYielded := n\<rparr>"
  "it\<lparr>itemsYielded := n, totalPages := tp\<rparr> = it\<lparr>totalPages := tp, itemsYielded := n\<rparr>"
  by (cases it; simp)+

lemma resume_Begin:
  "resume get Begin it log =
     resume get LoopTop
       (it\<lparr>currentPage := (case page (options it) of None \<Rightarrow> 1 | Some p \<Rightarrow> p),
           itemsYielded := 0, totalPages := None\<rparr>) log"
  by (subst resume.simps) simp

lemma resume_LoopTop:
  "resume get LoopTop it log =
     (if capped it then Some (Finished, it, log)
      else (case get (currentPage it) (perPage it) of
              Inl e \<Rightarrow> Some (Failed e, it, log @ [(currentPage it, perPage it)])
            | Inr page_response \<Rightarrow>
                resume get (ForItems (data page_response))
                  (it\<lparr>totalPages := Some (total_pages page_response)\<rparr>)
                  (log @ [(currentPage it, perPage it)])))"
  by (subst resume.simps) simp

lemma resume_ForItems_Nil: "resume get (ForItems []) it log = resume get AfterPage it log"
  by (subst resume.simps) simp

lemma resume_ForItems_Cons:
  "resume get (ForItems (x # xs)) it log =
     (if capped it then resume get AfterPage it log else Some (Yield x xs, it, log))"
  by (subst resume.simps) simp

lemma resume_AfterPage:
  "resume get AfterPage it log =
     (if currentPage it \<ge> (case totalPages it of None \<Rightarrow> 0 | Some tp \<Rightarrow> tp)
      then Some (Finished, it, log)
      else resume get LoopTop (it\<lparr>currentPage := currentPage it + 1\<rparr>) log)"
  by (subst resume.simps) simp

lemma resume_AfterYield:
  "resume get (AfterYield rest) it log =
     resume get (ForItems rest) (it\<lparr>itemsYielded := itemsYielded it + 1\<rparr>) log"
  by (subst resume.simps) simp

lemma toArray_loop_cong:
  "resume get pt it log = resume get pt' it' log' \<Longrightarrow>
   toArray_loop get pt it acc log = toArray_loop get pt' it' acc log'"
  by (simp add: toArray_loop.simps[of get pt] toArray_loop.simps[of get pt'])

lemma toArray_loop_items:
  "uncapped it \<Longrightarrow>
   toArray_loop get (ForItems ys) it acc log =
     toArray_loop get AfterPage (it\<lparr>itemsYielded := itemsYielded it + int (length ys)\<rparr>)
       (acc @ ys) log"
proof (induction ys arbitrary: it acc)
  case Nil
  show ?case
    using toArray_loop_cong[of get "ForItems []" it log AfterPage it log acc]
    by (simp add: resume_ForItems_Nil)
next
  case (Cons y ys)
  have "toArray_loop get (ForItems (y # ys)) it acc log =
        toArray_loop get (AfterYield ys) it (acc @ [y]) log"
    using Cons.prems
    by (subst toArray_loop.simps) (simp add: resume_ForItems_Cons uncapped_not_capped)
  also have "\<dots> = toArray_loop get (ForItems ys) (it\<lparr>itemsYielded := itemsYielded it + 1\<rparr>)
                     (acc @ [y]) log"
    by (rule toArray_loop_cong) (simp add: resume_AfterYield)
  also have "\<dots> = toArray_loop get AfterPage
       (it\<lparr>itemsYielded := itemsYielded it + 1 + int (length ys)\<rparr>) ((acc @ [y]) @ ys) log"
    using Cons.IH[of "it\<lparr>itemsYielded := itemsYielded it + 1\<rparr>" "acc @ [y]"] Cons.prems
    by simp
  finally show ?case by (simp add: add.assoc)
qed

lemma sim_resume:
  assumes "resume get pt it log = Some y"
  shows "options (fst (snd y)) = options it
         \<and> (\<forall>opts. no_cap (options it) \<and> no_cap opts \<and> page opts = page (options it) \<longrightarrow>
               resume get pt (it\<lparr>options := opts\<rparr>) log =
                 Some (fst y, (fst (snd y))\<lparr>options := opts\<rparr>, snd (snd y)))"
proof (rule resume.raw_induct
    [where P = "\<lambda>get pt it log y. options (fst (snd y)) = options it
         \<and> (\<forall>opts. no_cap (options it) \<and> no_cap opts \<and> page opts = page (options it) \<longrightarrow>
               resume get pt (it\<lparr>options := opts\<rparr>) log =
                 Some (fst y, (fst (snd y))\<lparr>options := opts\<rparr>, snd (snd y)))",
     OF _ assms], goal_cases)
  case (1 resume' get pt it log y)
  note body = 1(2)
  have keep': "options (fst (snd z)) = options j" if "resume' get q j l = Some z" for q j l z
    using 1(1)[OF that] by simp
  have sim': "resume get q (j\<lparr>options := opts\<rparr>) l =
                Some (fst z, (fst (snd z))\<lparr>options := opts\<rparr>, snd (snd z))"
    if "resume' get q j l = Some z" "no_cap (options j)" "no_cap opts"
       "page opts = page (options j)" for q j l z opts
    using 1(1)[OF that(1)] that(2-) by simp
  have keep: "options (fst (snd y)) = options it"
    using body by (auto split: gen_point.splits list.splits if_splits sum.splits dest: keep')
  have sim: "resume get pt (it\<lparr>options := opts\<rparr>) log =
                 Some (fst y, (fst (snd y))\<lparr>options := opts\<rparr>, snd (snd y))"
    if A: "no_cap (options it)" "no_cap opts" "page opts = page (options it)" for opts
  proof -
    have nc: "\<not> capped (j\<lparr>options := opts\<rparr>)" "options j = options it \<Longrightarrow> \<not> capped j" for j
      using A by (auto simp: no_cap_def capped_def)
    show ?thesis
    proof (cases pt)
      case Begin
      then have b: "resume' get LoopTop
            (it\<lparr>currentPage := (case page (options it) of None \<Rightarrow> 1 | Some p \<Rightarrow> p),
                itemsYielded := 0, totalPages := None\<rparr>) log = Some y"
        using body by simp
      show ?thesis
        unfolding Begin using sim'[OF b, of opts] A
        by (subst resume.simps) simp
    next
      case LoopTop
      show ?thesis
      proof (cases "get (currentPage it) (perPage it)")
        case (Inl e)
        have b: "y = (Failed e, it, log @ [(currentPage it, perPage it)])"
          using body LoopTop Inl nc[of it] by simp
        show ?thesis
          unfolding LoopTop b using Inl nc[of it]
          by (subst resume.simps) simp
      next
        case (Inr r)
        then have b: "resume' get (ForItems (data r)) (it\<lparr>totalPages := Some (total_pages r)\<rparr>)
                        (log @ [(currentPage it, perPage it)]) = Some y"
          using body LoopTop nc[of it] by simp
        show ?thesis
          unfolding LoopTop using sim'[OF b, of opts] A Inr nc[of it]
          by (subst resume.simps) simp
      qed
    next
      case (ForItems items)
      show ?thesis
      proof (cases items)
        case Nil
        then have b: "resume' get AfterPage it log = Some y"
          using body ForItems by simp
        show ?thesis
          unfolding ForItems Nil using sim'[OF b, of opts] A
          by (subst resume.simps) simp
      next
        case (Cons x xs)
        have b: "y = (Yield x xs, it, log)"
          using body ForItems Cons nc[of it] by simp
        show ?thesis
          unfolding ForItems Cons b using nc[of it]
          by (subst resume.simps) simp
      qed
    next
      case AfterPage
      show ?thesis
      proof (cases "currentPage it \<ge> (case totalPages it of None \<Rightarrow> 0 | Some tp \<Rightarrow> tp)")
        case True
        have b: "y = (Finished, it, log)"
          using body AfterPage True by simp
        show ?thesis
          unfolding AfterPage b using True
          by (subst resume.simps) simp
      next
        case False
        then have b: "resume' get LoopTop (it\<lparr>currentPage := currentPage it + 1\<rparr>) log = Some y"
          using body AfterPage by simp
        show ?thesis
          unfolding AfterPage using sim'[OF b, of opts] A False
          by (subst resume.simps) simp
      qed
    next
      case (AfterYield rest)
      then have b: "resume' get (ForItems rest) (it\<lparr>itemsYielded := itemsYielded it + 1\<rparr>) log
                      = Some y"
        using body by simp
      show ?thesis
        unfolding AfterYield using sim'[OF b, of opts] A
        by (subst resume.simps) simp
    qed
  qed
  show ?case using keep sim by blast
qed

lemma sim_toArray_loop:
  assumes "toArray_loop get pt it acc log = Some y"
  shows "\<forall>opts. no_cap (options it) \<and> no_cap opts \<and> page opts = page (options it) \<longrightarrow>
               toArray_loop get pt (it\<lparr>options := opts\<rparr>) acc log =
                 Some (fst y, (fst (snd y))\<lparr>options := opts\<rparr>, snd (snd y))"
proof (rule toArray_loop.raw_induct
    [where P = "\<lambda>get pt it acc log y.
         \<forall>opts. no_cap (options it) \<and> no_cap opts \<and> page opts = page (options it) \<longrightarrow>
               toArray_loop get pt (it\<lparr>options := opts\<rparr>) acc log =
                 Some (fst y, (fst (snd y))\<lparr>options := opts\<rparr>, snd (snd y))",
     OF _ assms], goal_cases)
  case (1 loop' get pt it acc log y)
  note body = 1(2)
  show ?case
  proof (intro allI impI, elim conjE)
    fix opts
    assume A: "no_cap (options it)" "no_cap opts" "page opts = page (options it)"
    obtain ev it1 log1 where r: "resume get pt it log = Some (ev, it1, log1)"
      using body by (cases "resume get pt it log") auto
    have keep: "options it1 = options it"
      and r': "resume get pt (it\<lparr>options := opts\<rparr>) log = Some (ev, it1\<lparr>options := opts\<rparr>, log1)"
      using sim_resume[OF r] A by auto
    show "toArray_loop get pt (it\<lparr>options := opts\<rparr>) acc log =
            Some (fst y, (fst (snd y))\<lparr>options := opts\<rparr>, snd (snd y))"
    proof (cases ev)
      case (Yield x rest)
      then have b: "loop' get (AfterYield rest) it1 (acc @ [x]) log1 = Some y"
        using body r by simp
      show ?thesis
        using 1(1)[OF b] A keep r' Yield
        by (subst toArray_loop.simps) simp
    next
      case Finished
      then have "y = (Inr acc, it1, log1)" using body r by simp
      then show ?thesis
        using r' Finished by (subst toArray_loop.simps) simp
    next
      case (Failed e)
      then have "y = (Inl e, it1, log1)" using body r by simp
      then show ?thesis
        using r' Failed by (subst toArray_loop.simps) simp
    qed
  qed
qed

lemma toArray_loop_page:
  assumes "uncapped it" and "get (currentPage it) (perPage it) = Inr r"
  shows "toArray_loop get LoopTop it acc log =
           toArray_loop get AfterPage
             (it\<lparr>totalPages := Some (total_pages r),
                 itemsYielded := itemsYielded it + int (length (data r))\<rparr>)
             (acc @ data r) (log @ [(currentPage it, perPage it)])"
proof -
  have "toArray_loop get LoopTop it acc log =
        toArray_loop get (ForItems (data r)) (it\<lparr>totalPages := Some (total_pages r)\<rparr>) acc
          (log @ [(currentPage it, perPage it)])"
    using assms by (intro toArray_loop_cong) (simp add: resume_LoopTop uncapped_not_capped)
  then show ?thesis
    using assms(1) by (simp add: toArray_loop_items)
qed

lemma toArray_loop_next:
  assumes "totalPages it = Some tp" and "currentPage it < tp"
  shows "toArray_loop get AfterPage it acc log =
           toArray_loop get LoopTop (it\<lparr>currentPage := currentPage it + 1\<rparr>) acc log"
  using assms by (intro toArray_loop_cong) (simp add: resume_AfterPage)

lemma toArray_loop_last:
  assumes "totalPages it = Some tp" and "tp \<le> currentPage it"
  shows "toArray_loop get AfterPage it acc log = Some (Inr acc, it, log)"
  using assms by (subst toArray_loop.simps) (simp add: resume_AfterPage)

lemma toArray_start:
  "toArray get it =
     toArray_loop get LoopTop
       (it\<lparr>currentPage := (case page (options it) of None \<Rightarrow> 1 | Some p \<Rightarrow> p),
           itemsYielded := 0, totalPages := None\<rparr>) [] []"
  unfolding toArray_def by (intro toArray_loop_cong) (simp add: resume_Begin)

lemma three_pages:
  assumes "length xs = 250"
  shows "take 100 xs @ take 100 (drop 100 xs) @ take 100 (drop 200 xs) = xs"
proof -
  have "take 100 (drop 200 xs) = drop 200 xs" using assms by simp
  moreover have "take 100 (drop 100 xs) @ drop 200 xs = drop 100 xs"
    using append_take_drop_id[of 100 "drop 100 xs"] by simp
  ultimately show ?thesis by simp
qed

lemma traverse_250:
  assumes len: "length xs = 250"
    and opts: "options it = \<lparr>page = None, per_page = Some 100, maxItems = m\<rparr>"
    and m: "m = None \<or> m = Some 0"
    and pp: "perPage it = 100"
  shows "toArray (list_endpoint xs) it =
           Some (Inr xs, it\<lparr>currentPage := 3, totalPages := Some 3, itemsYielded := 250\<rparr>,
                 [(1, 100), (2, 100), (3, 100)])"
proof -
  let ?get = "list_endpoint xs"
  have unc: "uncapped (it\<lparr>currentPage := c, totalPages := tp, itemsYielded := n\<rparr>)" for c n tp
    using opts m by (auto simp: uncapped_def)
  have page: "?get p 100 =
      Inr \<lparr>data = take 100 (drop (nat ((p - 1) * 100)) xs), total = 250, resp_page = p,
           resp_per_page = 100, total_pages = 3\<rparr>" for p
    using len by (simp add: list_endpoint_def)
  let ?it0 = "it\<lparr>currentPage := 1, totalPages := None, itemsYielded := 0\<rparr>"
  have "toArray ?get it = toArray_loop ?get LoopTop ?it0 [] []"
    using opts by (simp add: toArray_start)
  also have "\<dots> = toArray_loop ?get AfterPage
        (it\<lparr>currentPage := 1, totalPages := Some 3, itemsYielded := 100\<rparr>)
        (take 100 xs) [(1, 100)]"
    using toArray_loop_page[where get = ?get and it = ?it0 and acc = "[]" and log = "[]",
        OF unc] pp len
    by (simp add: page)
  also have "\<dots> = toArray_loop ?get LoopTop
        (it\<lparr>currentPage := 2, totalPages := Some 3, itemsYielded := 100\<rparr>)
        (take 100 xs) [(1, 100)]"
    by (subst toArray_loop_next[where tp = 3]) simp_all
  also have "\<dots> = toArray_loop ?get AfterPage
        (it\<lparr>currentPage := 2, totalPages := Some 3, itemsYielded := 200\<rparr>)
        (take 100 xs @ take 100 (drop 100 xs)) [(1, 100), (2, 100)]"
    using toArray_loop_page[where get = ?get
        and it = "it\<lparr>currentPage := 2, totalPages := Some 3, itemsYielded := 100\<rparr>"
        and acc = "take 100 xs" and log = "[(1, 100)]", OF unc] pp len
    by (simp add: page)
  also have "\<dots> = toArray_loop ?get LoopTop
        (it\<lparr>currentPage := 3, totalPages := Some 3, itemsYielded := 200\<rparr>)
        (take 100 xs @ take 100 (drop 100 xs)) [(1, 100), (2, 100)]"
    by (subst toArray_loop_next[where tp = 3]) simp_all
  also have "\<dots> = toArray_loop ?get AfterPage
        (it\<lparr>currentPage := 3, totalPages := Some 3, itemsYielded := 250\<rparr>)
        (take 100 xs @ take 100 (drop 100 xs) @ take 100 (drop 200 xs))
        [(1, 100), (2, 100), (3, 100)]"
    using toArray_loop_page[where get = ?get
        and it = "it\<lparr>currentPage := 3, totalPages := Some 3, itemsYielded := 200\<rparr>"
        and acc = "take 100 xs @ take 100 (drop 100 xs)" and log = "[(1, 100), (2, 100)]",
        OF unc] pp len
    by (simp add: page)
  also have "\<dots> = Some (Inr (take 100 xs @ take 100 (drop 100 xs) @ take 100 (drop 200 xs)),
        it\<lparr>currentPage := 3, totalPages := Some 3, itemsYielded := 250\<rparr>,
        [(1, 100), (2, 100), (3, 100)])"
    by (subst toArray_loop_last[where tp = 3]) simp_all
  finally show ?thesis by (simp add: three_pages[OF len])
qed

lemma take_loop_cong:
  "resume get pt it log = resume get pt' it' log' \<Longrightarrow>
   take_loop get n pt it acc count log = take_loop get n pt' it' acc count log'"
  by (simp add: take_loop.simps[of get n pt] take_loop.simps[of get n pt'])

lemma take_loop_items_all:
  "uncapped it \<Longrightarrow> count + int (length ys) \<le> n \<Longrightarrow>
   take_loop get n (ForItems ys) it acc count log =
     take_loop get n AfterPage (it\<lparr>itemsYielded := itemsYielded it + int (length ys)\<rparr>)
       (acc @ ys) (count + int (length ys)) log"
proof (induction ys arbitrary: it acc count)
  case Nil
  show ?case
    using take_loop_cong[of get "ForItems []" it log AfterPage it log n acc count]
    by (simp add: resume_ForItems_Nil)
next
  case (Cons y ys)
  have "take_loop get n (ForItems (y # ys)) it acc count log =
        take_loop get n (AfterYield ys) it (acc @ [y]) (count + 1) log"
    using Cons.prems
    by (subst take_loop.simps) (simp add: resume_ForItems_Cons uncapped_not_capped)
  also have "\<dots> = take_loop get n (ForItems ys) (it\<lparr>itemsYielded := itemsYielded it + 1\<rparr>)
                     (acc @ [y]) (count + 1) log"
    by (rule take_loop_cong) (simp add: resume_AfterYield)
  also have "\<dots> = take_loop get n AfterPage
       (it\<lparr>itemsYielded := itemsYielded it + 1 + int (length ys)\<rparr>) ((acc @ [y]) @ ys)
       (count + 1 + int (length ys)) log"
    using Cons.IH[of "it\<lparr>itemsYielded := itemsYielded it + 1\<rparr>" "count + 1" "acc @ [y]"]
      Cons.prems
    by simp
  finally show ?case by (simp add: add.assoc)
qed

lemma take_loop_items_stop:
  "uncapped it \<Longrightarrow> count \<le> n \<Longrightarrow> n < count + int (length ys) \<Longrightarrow>
   take_loop get n (ForItems ys) it acc count log =
     Some (Inr (acc @ take (nat (n - count)) ys),
           it\<lparr>itemsYielded := itemsYielded it + (n - count)\<rparr>, log)"
proof (induction ys arbitrary: it acc count)
  case Nil
  then show ?case by simp
next
  case (Cons y ys)
  show ?case
  proof (cases "count = n")
    case True
    then show ?thesis
      using Cons.prems
      by (subst take_loop.simps) (simp add: resume_ForItems_Cons uncapped_not_capped)
  next
    case False
    then have lt: "count < n" using Cons.prems by simp
    have "take_loop get n (ForItems (y # ys)) it acc count log =
          take_loop get n (AfterYield ys) it (acc @ [y]) (count + 1) log"
      using Cons.prems lt
      by (subst take_loop.simps) (simp add: resume_ForItems_Cons uncapped_not_capped)
    also have "\<dots> = take_loop get n (ForItems ys) (it\<lparr>itemsYielded := itemsYielded it + 1\<rparr>)
                       (acc @ [y]) (count + 1) log"
      by (rule take_loop_cong) (simp add: resume_AfterYield)
    also have "\<dots> = Some (Inr ((acc @ [y]) @ take (nat (n - (count + 1))) ys),
           it\<lparr>itemsYielded := itemsYielded it + 1 + (n - (count + 1))\<rparr>, log)"
      using Cons.IH[of "it\<lparr>itemsYielded := itemsYielded it + 1\<rparr>" "count + 1" "acc @ [y]"]
        Cons.prems lt
      by simp
    also have "(acc @ [y]) @ take (nat (n - (count + 1))) ys = acc @ take (nat (n - count)) (y # ys)"
    proof -
      have "nat (n - count) = Suc (nat (n - (count + 1)))" using lt by simp
      then show ?thesis by simp
    qed
    finally show ?thesis by simp
  qed
qed

lemma take_items_250:
  assumes len: "length xs = 250"
    and opts: "options it = \<lparr>page = None, per_page = Some 100, maxItems = None\<rparr>"
    and pp: "perPage it = 100"
  shows "take_items (list_endpoint xs) 5 it =
           Some (Inr (take 5 xs), it\<lparr>currentPage := 1, totalPages := Some 3, itemsYielded := 5\<rparr>,
                 [(1, 100)])"
    and "take_items (list_endpoint xs) 100 it =
           Some (Inr (take 100 xs),
                 it\<lparr>currentPage := 2, totalPages := Some 3, itemsYielded := 100\<rparr>,
                 [(1, 100), (2, 100)])"
proof -
  let ?get = "list_endpoint xs"
  have unc: "uncapped (it\<lparr>currentPage := c, totalPages := tp, itemsYielded := n\<rparr>)" for c n tp
    using opts by (auto simp: uncapped_def)
  have ncap: "\<not> capped j" if "options j = options it" for j
    using opts that by (simp add: capped_def)
  have page: "?get p 100 =
      Inr \<lparr>data = take 100 (drop (nat ((p - 1) * 100)) xs), total = 250, resp_page = p,
           resp_per_page = 100, total_pages = 3\<rparr>" for p
    using len by (simp add: list_endpoint_def)
  let ?it0 = "it\<lparr>currentPage := 1, totalPages := None, itemsYielded := 0\<rparr>"
  have start: "take_items ?get n it =
      take_loop ?get n (ForItems (take 100 xs))
        (it\<lparr>currentPage := 1, totalPages := Some 3, itemsYielded := 0\<rparr>) [] 0 [(1, 100)]" for n
    unfolding take_items_def using opts pp
    by (intro take_loop_cong) (simp add: resume_Begin resume_LoopTop page ncap)
  show "take_items ?get 5 it =
           Some (Inr (take 5 xs), it\<lparr>currentPage := 1, totalPages := Some 3, itemsYielded := 5\<rparr>,
                 [(1, 100)])"
    using take_loop_items_stop[where get = ?get and n = 5 and count = 0 and ys = "take 100 xs"
        and it = "it\<lparr>currentPage := 1, totalPages := Some 3, itemsYielded := 0\<rparr>"
        and acc = "[]" and log = "[(1, 100)]", OF unc] len
    by (simp add: start min_def)
  have "take_items ?get 100 it =
      take_loop ?get 100 AfterPage
        (it\<lparr>currentPage := 1, totalPages := Some 3, itemsYielded := 100\<rparr>) (take 100 xs) 100
        [(1, 100)]"
    using take_loop_items_all[where get = ?get and n = 100 and count = 0 and ys = "take 100 xs"
        and it = "it\<lparr>currentPage := 1, totalPages := Some 3, itemsYielded := 0\<rparr>"
        and acc = "[]" and log = "[(1, 100)]", OF unc] len
    by (simp add: start)
  also have "\<dots> = take_loop ?get 100 (ForItems (take 100 (drop 100 xs)))
        (it\<lparr>currentPage := 2, totalPages := Some 3, itemsYielded := 100\<rparr>) (take 100 xs) 100
        [(1, 100), (2, 100)]"
    using pp
    by (intro take_loop_cong) (simp add: resume_AfterPage resume_LoopTop page ncap)
  also have "\<dots> = Some (Inr (take 100 xs),
                 it\<lparr>currentPage := 2, totalPages := Some 3, itemsYielded := 100\<rparr>,
                 [(1, 100), (2, 100)])"
    using take_loop_items_stop[where get = ?get and n = 100 and count = 100
        and ys = "take 100 (drop 100 xs)"
        and it = "it\<lparr>currentPage := 2, totalPages := Some 3, itemsYielded := 100\<rparr>"
        and acc = "take 100 xs" and log = "[(1, 100), (2, 100)]", OF unc] len
    by simp
  finally show "take_items ?get 100 it =
           Some (Inr (take 100 xs),
                 it\<lparr>currentPage := 2, totalPages := Some 3, itemsYielded := 100\<rparr>,
                 [(1, 100), (2, 100)])" .
qed

text \<open>
  Claim C5. Over a list endpoint that holds 250 items, with a page size of 100, one
  traversal to completion yields the 250 items in the order of the server and requests
  exactly the pages 1, 2 and 3. It leaves the iterator object at page 3 with 250 items
  counted; a second traversal of that same object starts again from page 1 and yields
  the same 250 items with the same three requests.
\<close>

theorem traversal_250_restartable:
  assumes "length xs = 250"
  shows "toArray (list_endpoint xs) (new_PaginatedIterator (list_options None)) =
           Some (Inr xs, after_traversal None 3 250, [(1, 100), (2, 100), (3, 100)])
         \<and> toArray (list_endpoint xs) (after_traversal None 3 250) =
           Some (Inr xs, after_traversal None 3 250, [(1, 100), (2, 100), (3, 100)])"
  using traverse_250[OF assms, where it = "new_PaginatedIterator (list_options None)" and m = None]
    traverse_250[OF assms, where it = "after_traversal None 3 250" and m = None]
  by (simp add: new_PaginatedIterator_def list_options_def after_traversal_def)

theorem traversal_250_restartable_witness:
  "length [0..<250] = 250
   \<and> toArray (list_endpoint [0..<250]) (new_PaginatedIterator (list_options None)) =
       Some (Inr [0..<250], after_traversal None 3 250, [(1, 100), (2, 100), (3, 100)])
   \<and> toArray (list_endpoint [0..<250]) (after_traversal None 3 250) =
       Some (Inr [0..<250], after_traversal None 3 250, [(1, 100), (2, 100), (3, 100)])"
  using traversal_250_restartable[of "[0..<250]"] by simp

text \<open>
  Claim C6, at the input where the code departs from it. Over the same 250 items,
  \<open>take(100)\<close> returns the first 100 items but requests pages 1 and 2: the loop pulls
  the 101st item, which starts the second page request, before it tests its counter.
  \<open>take(5)\<close> returns the first 5 items with the single request of page 1.
\<close>

theorem take_pulls_one_more:
  assumes "length xs = 250"
  shows "take_items (list_endpoint xs) 100 (new_PaginatedIterator (list_options None)) =
           Some (Inr (take 100 xs), after_traversal None 2 100, [(1, 100), (2, 100)])
         \<and> take_items (list_endpoint xs) 5 (new_PaginatedIterator (list_options None)) =
           Some (Inr (take 5 xs), after_traversal None 1 5, [(1, 100)])"
  using take_items_250[OF assms, where it = "new_PaginatedIterator (list_options None)"]
  by (simp add: new_PaginatedIterator_def list_options_def after_traversal_def)

theorem take_pulls_one_more_witness:
  "length [0..<250] = 250
   \<and> take_items (list_endpoint [0..<250]) 100 (new_PaginatedIterator (list_options None)) =
       Some (Inr (take 100 [0..<250]), after_traversal None 2 100, [(1, 100), (2, 100)])"
  using take_pulls_one_more[of "[0..<250]"] by simp

text \<open>
  Claim C10. An iterator built with \<open>maxItems = 0\<close> behaves, for every page source and
  every other option, as one built without a cap: a full traversal gives the same items
  or error with the same page requests. Over the 250 items of the example it yields all
  250 of them, not none.
\<close>

theorem zero_cap_is_no_cap:
  "observed (toArray get (new_PaginatedIterator (opts\<lparr>maxItems := Some 0\<rparr>))) =
     observed (toArray get (new_PaginatedIterator (opts\<lparr>maxItems := None\<rparr>)))
   \<and> (length xs = 250 \<longrightarrow>
        observed (toArray (list_endpoint xs) (new_PaginatedIterator (list_options (Some 0)))) =
          Some (Inr xs, [(1, 100), (2, 100), (3, 100)]))"
proof
  let ?itZ = "new_PaginatedIterator (opts\<lparr>maxItems := Some 0\<rparr>)"
  let ?itN = "new_PaginatedIterator (opts\<lparr>maxItems := None\<rparr>)"
  have ZN: "?itZ = ?itN\<lparr>options := opts\<lparr>maxItems := Some 0\<rparr>\<rparr>"
    and NZ: "?itN = ?itZ\<lparr>options := opts\<lparr>maxItems := None\<rparr>\<rparr>"
    by (simp_all add: new_PaginatedIterator_def)
  have caps: "no_cap (options ?itZ)" "no_cap (options ?itN)"
    "page (options ?itZ) = page (options ?itN)"
    by (simp_all add: new_PaginatedIterator_def no_cap_def)
  have fromN: "toArray get ?itZ = Some (fst y, (fst (snd y))\<lparr>options := options ?itZ\<rparr>, snd (snd y))"
    if "toArray get ?itN = Some y" for y
    using sim_toArray_loop[OF that[unfolded toArray_def], rule_format, of "options ?itZ"] caps
    unfolding toArray_def by (simp add: new_PaginatedIterator_def)
  have fromZ: "toArray get ?itN = Some (fst y, (fst (snd y))\<lparr>options := options ?itN\<rparr>, snd (snd y))"
    if "toArray get ?itZ = Some y" for y
    using sim_toArray_loop[OF that[unfolded toArray_def], rule_format, of "options ?itN"] caps
    unfolding toArray_def by (simp add: new_PaginatedIterator_def)
  show "observed (toArray get ?itZ) = observed (toArray get ?itN)"
  proof (cases "toArray get ?itN")
    case None
    then have "toArray get ?itZ = None"
      using fromZ by (cases "toArray get ?itZ") auto
    with None show ?thesis by (simp add: observed_def)
  next
    case (Some y)
    then show ?thesis
      using fromN[OF Some] by (simp add: observed_def split_beta)
  qed
next
  show "length xs = 250 \<longrightarrow>
        observed (toArray (list_endpoint xs) (new_PaginatedIterator (list_options (Some 0)))) =
          Some (Inr xs, [(1, 100), (2, 100), (3, 100)])"
  proof
    assume len: "length xs = 250"
    show "observed (toArray (list_endpoint xs) (new_PaginatedIterator (list_options (Some 0)))) =
          Some (Inr xs, [(1, 100), (2, 100), (3, 100)])"
      using traverse_250[OF len, where it = "new_PaginatedIterator (list_options (Some 0))"
          and m = "Some 0"]
      by (simp add: new_PaginatedIterator_def list_options_def observed_def)
  qed
qed

theorem zero_cap_is_no_cap_witness:
  "length [0..<250] = 250
   \<and> observed (toArray (list_endpoint [0..<250]) (new_PaginatedIterator (list_options (Some 0)))) =
       Some (Inr [0..<250], [(1, 100), (2, 100), (3, 100)])"
  using zero_cap_is_no_cap
    [where xs = "[0..<250]" and get = "list_endpoint [0..<250]" and opts = "list_options None"]
  by simp

end
